theory Spec2Isabelle
  imports Complex_Main
begin

section \<open>Values that main.js receives from the block source\<close>

text \<open>
  \<^verbatim>\<open>res.json()\<close> gives a JavaScript value built from JSON text. A number is a double:
  a finite one is its rational value (minus zero is zero), and a literal out of range
  parses to an infinity.
\<close>

datatype jsnum = Finite rat | Infinite

datatype json =
    JNull
  | JBool bool
  | JNum jsnum
  | JStr string
  | JArr "json list"
  | JObj "(string \<times> json) list"

datatype error = TransportError | TypeError | ValidationError | InputError

text \<open>JavaScript's ToBoolean, which \<^verbatim>\<open>!block.data\<close> applies.\<close>

fun truthy :: "json \<Rightarrow> bool" where
  "truthy JNull = False"
| "truthy (JBool b) = b"
| "truthy (JNum (Finite q)) = (q \<noteq> 0)"
| "truthy (JNum Infinite) = True"
| "truthy (JStr s) = (s \<noteq> [])"
| "truthy (JArr xs) = True"
| "truthy (JObj kvs) = True"

text \<open>
  Property access \<^verbatim>\<open>v.name\<close> for a name that no built-in prototype defines (main.js reads
  \<^verbatim>\<open>data\<close> and \<^verbatim>\<open>block\<close>): on null it throws a TypeError, on an object it is the own
  property (the last one, where the text repeated a key), and on every other value it is
  undefined, here \<open>None\<close>.
\<close>

fun get_prop :: "json \<Rightarrow> string \<Rightarrow> error + json option" where
  "get_prop JNull name = Inl TypeError"
| "get_prop (JObj kvs) name = Inr (map_of (rev kvs) name)"
| "get_prop v name = Inr None"

text \<open>
  What one \<^verbatim>\<open>await fetch(...)\<close> followed by \<^verbatim>\<open>await res.json()\<close> can give: the fetch
  rejects, the body is not JSON, or a value arrives.
\<close>

datatype response = NetworkError | Unparsable | Body json

datatype fetch_result = BlockPresent json | BlockAbsent | FetchFailed error

text \<open>
  Lines 59 to 70 of main.js, from the response on: the two awaits throw on a transport
  failure, and \<^verbatim>\<open>if (!block.data) break\<close> decides between a block and the end of the
  chain.
\<close>

definition fetch_block :: "response \<Rightarrow> fetch_result" where
  "fetch_block r =
     (case r of
        NetworkError \<Rightarrow> FetchFailed TransportError
      | Unparsable \<Rightarrow> FetchFailed TransportError
      | Body block \<Rightarrow>
          (case get_prop block ''data'' of
             Inl e \<Rightarrow> FetchFailed e
           | Inr None \<Rightarrow> BlockAbsent
           | Inr (Some d) \<Rightarrow> if truthy d then BlockPresent d else BlockAbsent))"

section \<open>What main.js imports\<close>

text \<open>
  The class \<^verbatim>\<open>FlorestaChain\<close> of \<^verbatim>\<open>./pkg/example_libfloresta.js\<close> and the built-in
  \<^verbatim>\<open>JSON.stringify\<close> are not part of main.js: they are parameters here. \<open>'c\<close> is the
  state of the chain object; a method that throws gives \<open>None\<close> and leaves the object as
  it was.
\<close>

record 'c lib =
  new_chain :: "'c"
  height :: "'c \<Rightarrow> nat"
  tip :: "'c \<Rightarrow> string"
  network :: "'c \<Rightarrow> string"
  ibd :: "'c \<Rightarrow> bool"
  difficulty :: "'c \<Rightarrow> nat"
  target :: "'c \<Rightarrow> nat"
  our_txs :: "'c \<Rightarrow> string list"
  accept_block :: "string \<Rightarrow> 'c \<Rightarrow> 'c option"
  toggle_ibd :: "'c \<Rightarrow> 'c"
  add_address :: "string \<Rightarrow> 'c \<Rightarrow> 'c option"
  get_random_address :: "'c \<Rightarrow> string \<times> 'c"
  stringify :: "json \<Rightarrow> string"

section \<open>The page\<close>

record snapshot =
  s_tip :: string
  s_height :: nat
  s_network :: string
  s_ibd :: bool
  s_difficulty :: nat
  s_target :: nat

text \<open>Calls that leave main.js, in the order they are made.\<close>

datatype event =
    Fetch nat
  | LogLoaded nat
  | LogAddingBlock "json option" nat
  | AcceptBlock string bool
  | ToggleIbd
  | AddAddress string bool
  | GetRandomAddress
  | Alert string

datatype origin = ByStart | ByTimer

text \<open>
  An \<^verbatim>\<open>update_tip\<close> that waits for its fetch: the value of its local \<^verbatim>\<open>height\<close>, and
  whether \<^verbatim>\<open>sync_loop\<close> awaits it or the timer started it.
\<close>

record task =
  t_height :: nat
  t_origin :: origin

text \<open>
  The globals \<^verbatim>\<open>florestaChain\<close> and \<^verbatim>\<open>last_tip\<close> (\<open>None\<close> is its initial \<^verbatim>\<open>0\<close>, which
  no tip is strictly equal to), the parts of the document that main.js reads or writes,
  and the calls made so far. \<open>rendered\<close> holds every pair written to the two
  \<^verbatim>\<open>innerHTML\<close>s, oldest first: the page shows the last one.
\<close>

record 'c page =
  florestaChain :: 'c
  last_tip :: "string option"
  wallet_value :: string
  start_disabled :: bool
  rendered :: "(snapshot \<times> string list) list"
  calls :: "event list"
  pending :: "task list"

definition call :: "event \<Rightarrow> 'c page \<Rightarrow> 'c page" where
  "call e s = s\<lparr>calls := calls s @ [e]\<rparr>"

text \<open>What the template of \<^verbatim>\<open>update_ui\<close> reads from the chain for the first element.\<close>

definition snapshot_of :: "'c lib \<Rightarrow> 'c \<Rightarrow> snapshot" where
  "snapshot_of L c =
     \<lparr>s_tip = tip L c, s_height = height L c, s_network = network L c,
      s_ibd = ibd L c, s_difficulty = difficulty L c, s_target = target L c\<rparr>"

definition update_ui :: "'c lib \<Rightarrow> 'c page \<Rightarrow> 'c page" where
  "update_ui L s =
     (let c = florestaChain s in
      if Some (tip L c) = last_tip s then s
      else s\<lparr>last_tip := Some (tip L c),
             rendered := rendered s @ [(snapshot_of L c, our_txs L c)]\<rparr>)"

section \<open>Downloading blocks\<close>

datatype 'a iteration = Continue 'a | Break 'a | Raise error 'a

datatype 'a outcome = Returned 'a | Thrown error 'a

text \<open>
  One turn of the \<^verbatim>\<open>while (true)\<close> of \<^verbatim>\<open>update_tip\<close>, from the moment the response \<open>r\<close>
  for \<open>h\<close> is there: lines 66 to 73.
\<close>

definition update_tip_turn :: "'c lib \<Rightarrow> response \<Rightarrow> nat \<Rightarrow> 'c page \<Rightarrow> 'c page iteration" where
  "update_tip_turn L r h s =
     (case fetch_block r of
        FetchFailed e \<Rightarrow> Raise e s
      | BlockAbsent \<Rightarrow> Break s
      | BlockPresent d \<Rightarrow>
          (case get_prop d ''block'' of
             Inl e \<Rightarrow> Raise e s
           | Inr b \<Rightarrow>
               (let s1 = call (LogAddingBlock b h) s; p = stringify L d in
                case accept_block L p (florestaChain s1) of
                  None \<Rightarrow> Raise ValidationError (call (AcceptBlock p False) s1)
                | Some c \<Rightarrow> Continue (call (AcceptBlock p True) (s1\<lparr>florestaChain := c\<rparr>)))))"

text \<open>
  The loop with no other handler running between its awaits; \<open>src\<close> is what the block
  source answers for each height. The loop has no bound of its own: where the source
  never stops, the result is \<open>None\<close>.
\<close>

partial_function (option) update_tip_loop ::
  "'c lib \<Rightarrow> (nat \<Rightarrow> response) \<Rightarrow> nat \<Rightarrow> 'c page \<Rightarrow> 'c page outcome option" where
  "update_tip_loop L src h s =
     (case update_tip_turn L (src h) h (call (Fetch h) s) of
        Continue s' \<Rightarrow> update_tip_loop L src (h + 1) s'
      | Break s' \<Rightarrow> Some (Returned s')
      | Raise e s' \<Rightarrow> Some (Thrown e s'))"

definition update_tip :: "'c lib \<Rightarrow> (nat \<Rightarrow> response) \<Rightarrow> 'c page \<Rightarrow> 'c page outcome option" where
  "update_tip L src s = update_tip_loop L src (height L (florestaChain s) + 1) s"

text \<open>The three statements of \<^verbatim>\<open>sync_loop\<close> that follow \<^verbatim>\<open>await update_tip()\<close>.\<close>

definition sync_loop_rest :: "'c lib \<Rightarrow> 'c page \<Rightarrow> 'c page" where
  "sync_loop_rest L s =
     (let s1 = call ToggleIbd (s\<lparr>florestaChain := toggle_ibd L (florestaChain s)\<rparr>);
          s2 = update_ui L s1
      in s2\<lparr>start_disabled := True\<rparr>)"

definition sync_loop :: "'c lib \<Rightarrow> (nat \<Rightarrow> response) \<Rightarrow> 'c page \<Rightarrow> 'c page outcome option" where
  "sync_loop L src s =
     (case update_tip L src s of
        None \<Rightarrow> None
      | Some (Thrown e s') \<Rightarrow> Some (Thrown e s')
      | Some (Returned s') \<Rightarrow> Some (Returned (sync_loop_rest L s')))"

section \<open>The watch-only wallet\<close>

definition add_address_to_wallet :: "'c lib \<Rightarrow> 'c page \<Rightarrow> 'c page outcome" where
  "add_address_to_wallet L s =
     (let v = wallet_value s in
      case add_address L v (florestaChain s) of
        None \<Rightarrow> Thrown InputError (call (AddAddress v False) s)
      | Some c \<Rightarrow>
          Returned (call (AddAddress v True) (s\<lparr>florestaChain := c\<rparr>)\<lparr>wallet_value := []\<rparr>))"

definition add_random_address_to_wallet :: "'c lib \<Rightarrow> 'c page \<Rightarrow> 'c page outcome" where
  "add_random_address_to_wallet L s =
     (let (wallet, c) = get_random_address L (florestaChain s);
          s1 = call GetRandomAddress (s\<lparr>florestaChain := c\<rparr>);
          s2 = s1\<lparr>wallet_value := wallet\<rparr>;
          s3 = call (Alert (''Address '' @ wallet @ '' added to wallet'')) s2
      in add_address_to_wallet L s3)"

section \<open>Handlers and the event loop\<close>

text \<open>
  \<^verbatim>\<open>run\<close>, once \<^verbatim>\<open>init()\<close> has resolved: from here on the chain exists and the
  buttons have their handlers, and the clicks and ticks below come after it. The markup
  is not part of main.js: the address field is taken to be empty when the page loads.
\<close>

definition run :: "'c lib \<Rightarrow> 'c page" where
  "run L =
     (let s0 = \<lparr>florestaChain = new_chain L, last_tip = None, wallet_value = [],
                start_disabled = False, rendered = [], calls = [], pending = []\<rparr>;
          s1 = call (LogLoaded (height L (florestaChain s0))) s0;
          s2 = update_ui L s1
      in s2\<lparr>start_disabled := False\<rparr>)"

text \<open>
  A call of \<^verbatim>\<open>update_tip\<close> runs up to its first \<^verbatim>\<open>await\<close>: it reads the height, sends the
  request and waits. Other handlers run until the response arrives.
\<close>

definition update_tip_begin :: "'c lib \<Rightarrow> origin \<Rightarrow> 'c page \<Rightarrow> 'c page" where
  "update_tip_begin L org s =
     (let h = height L (florestaChain s) + 1 in
      (call (Fetch h) s)\<lparr>pending := pending s @ [\<lparr>t_height = h, t_origin = org\<rparr>]\<rparr>)"

text \<open>A click on the start button: a disabled button dispatches no click.\<close>

definition click_start :: "'c lib \<Rightarrow> 'c page \<Rightarrow> 'c page" where
  "click_start L s = (if start_disabled s then s else update_tip_begin L ByStart s)"

text \<open>The callback of \<^verbatim>\<open>setInterval\<close>.\<close>

definition timer_tick :: "'c lib \<Rightarrow> 'c page \<Rightarrow> 'c page" where
  "timer_tick L s =
     (let s1 = update_ui L s in
      if ibd L (florestaChain s1) then s1 else update_tip_begin L ByTimer s1)"

text \<open>
  The response \<open>r\<close> arrives for the \<open>i\<close>-th waiting \<^verbatim>\<open>update_tip\<close>, which runs one turn of
  its loop: it sends the next request and waits again, or it ends. When it returns and
  \<^verbatim>\<open>sync_loop\<close> awaits it, the rest of \<^verbatim>\<open>sync_loop\<close> runs; when it throws, nothing
  catches the rejection.
\<close>

definition deliver :: "'c lib \<Rightarrow> nat \<Rightarrow> response \<Rightarrow> 'c page \<Rightarrow> 'c page" where
  "deliver L i r s =
     (if length (pending s) \<le> i then s
      else
        (let t = pending s ! i;
             others = take i (pending s) @ drop (Suc i) (pending s)
         in case update_tip_turn L r (t_height t) (s\<lparr>pending := others\<rparr>) of
              Continue s' \<Rightarrow>
                (call (Fetch (t_height t + 1)) s')
                  \<lparr>pending := others @ [t\<lparr>t_height := t_height t + 1\<rparr>]\<rparr>
            | Break s' \<Rightarrow>
                (case t_origin t of ByStart \<Rightarrow> sync_loop_rest L s' | ByTimer \<Rightarrow> s')
            | Raise e s' \<Rightarrow> s'))"

datatype action =
    ClickStart
  | ClickAddWallet
  | ClickRandomWallet
  | TypeAddress string
  | TimerTick
  | Deliver nat response

definition state_of :: "'a outcome \<Rightarrow> 'a" where
  "state_of out = (case out of Returned s \<Rightarrow> s | Thrown e s \<Rightarrow> s)"

fun step :: "'c lib \<Rightarrow> action \<Rightarrow> 'c page \<Rightarrow> 'c page" where
  "step L ClickStart s = click_start L s"
| "step L ClickAddWallet s = state_of (add_address_to_wallet L s)"
| "step L ClickRandomWallet s = state_of (add_random_address_to_wallet L s)"
| "step L (TypeAddress v) s = s\<lparr>wallet_value := v\<rparr>"
| "step L TimerTick s = timer_tick L s"
| "step L (Deliver i r) s = deliver L i r s"

fun exec :: "'c lib \<Rightarrow> action list \<Rightarrow> 'c page \<Rightarrow> 'c page" where
  "exec L [] s = s"
| "exec L (a # as) s = exec L as (step L a s)"


section \<open>Observations\<close>

definition toggles :: "'c page \<Rightarrow> nat" where
  "toggles s = length (filter (\<lambda>e. e = ToggleIbd) (calls s))"

fun accepted_payload :: "event \<Rightarrow> string option" where
  "accepted_payload (AcceptBlock p True) = Some p"
| "accepted_payload e = None"

definition applied :: "'c page \<Rightarrow> string list" where
  "applied s = List.map_filter accepted_payload (calls s)"

fun fetched_height :: "event \<Rightarrow> nat option" where
  "fetched_height (Fetch h) = Some h"
| "fetched_height e = None"

definition fetched :: "'c page \<Rightarrow> nat list" where
  "fetched s = List.map_filter fetched_height (calls s)"

fun address_argument :: "event \<Rightarrow> string option" where
  "address_argument (AddAddress a ok) = Some a"
| "address_argument e = None"

text \<open>The strings that \<^verbatim>\<open>add_address\<close> was called with.\<close>

definition added :: "'c page \<Rightarrow> string list" where
  "added s = List.map_filter address_argument (calls s)"

definition starts_waiting :: "'c page \<Rightarrow> nat" where
  "starts_waiting s = length (filter (\<lambda>t. t_origin t = ByStart) (pending s))"

text \<open>
  The calls of a run of \<^verbatim>\<open>update_tip\<close> that finds the blocks \<open>d (j + 1)\<close> to \<open>d K\<close> and
  then no block: what \<^verbatim>\<open>console.log\<close> prints of a block is its \<^verbatim>\<open>block\<close> field.
\<close>

definition block_field :: "json \<Rightarrow> json option" where
  "block_field d = (case get_prop d ''block'' of Inl e \<Rightarrow> None | Inr b \<Rightarrow> b)"

definition turn_calls :: "'c lib \<Rightarrow> (nat \<Rightarrow> json) \<Rightarrow> nat \<Rightarrow> event list" where
  "turn_calls L d h =
     [Fetch h, LogAddingBlock (block_field (d h)) h, AcceptBlock (stringify L (d h)) True]"

definition run_calls :: "'c lib \<Rightarrow> (nat \<Rightarrow> json) \<Rightarrow> nat \<Rightarrow> nat \<Rightarrow> event list" where
  "run_calls L d j K = concat (map (turn_calls L d) [j + 1..<K + 1]) @ [Fetch (K + 1)]"

text \<open>
  A schedule in which no click on the start button comes while an \<^verbatim>\<open>update_tip\<close> that
  \<^verbatim>\<open>sync_loop\<close> awaits is still waiting for a response.
\<close>

fun starts_spaced :: "'c lib \<Rightarrow> action list \<Rightarrow> 'c page \<Rightarrow> bool" where
  "starts_spaced L [] s = True"
| "starts_spaced L (a # as) s =
     ((case a of ClickStart \<Rightarrow> starts_waiting s = 0 | _ \<Rightarrow> True) \<and>
      starts_spaced L as (step L a s))"

text \<open>
  What holds of the page along such a schedule: before the first \<^verbatim>\<open>toggle_ibd\<close> at most
  one \<^verbatim>\<open>sync_loop\<close> is waiting, and after it none is and the start button is disabled.
\<close>

definition toggle_inv :: "'c page \<Rightarrow> bool" where
  "toggle_inv s =
     (if toggles s = 0 then starts_waiting s \<le> 1
      else toggles s = 1 \<and> starts_waiting s = 0 \<and> start_disabled s)"

text \<open>\<^verbatim>\<open>!block.data\<close> is false: the response is an object whose \<^verbatim>\<open>data\<close> is truthy.\<close>

definition data_truthy :: "json \<Rightarrow> bool" where
  "data_truthy block =
     (case get_prop block ''data'' of Inr (Some d) \<Rightarrow> truthy d | _ \<Rightarrow> False)"

section \<open>The specification's wording\<close>

text \<open>
  The specification's sync loop computes the next height from the chain on every turn:
  ``repeatedly compute nextHeight = ChainState.height + 1, call fetchBlock(nextHeight)''.
\<close>

partial_function (option) update_tip_spec ::
  "'c lib \<Rightarrow> (nat \<Rightarrow> response) \<Rightarrow> 'c page \<Rightarrow> 'c page outcome option" where
  "update_tip_spec L src s =
     (case update_tip_turn L (src (height L (florestaChain s) + 1))
             (height L (florestaChain s) + 1)
             (call (Fetch (height L (florestaChain s) + 1)) s) of
        Continue s' \<Rightarrow> update_tip_spec L src s'
      | Break s' \<Rightarrow> Some (Returned s')
      | Raise e s' \<Rightarrow> Some (Thrown e s'))"

text \<open>
  The specification's invariant: ``height strictly increases by exactly 1 per successfully
  applied block''.
\<close>

definition grows :: "'c lib \<Rightarrow> bool" where
  "grows L = (\<forall>p c c'. accept_block L p c = Some c' \<longrightarrow> height L c' = height L c + 1)"

text \<open>The specification's signal of a block: ``presence of a data.block field''.\<close>

definition has_data_block :: "json \<Rightarrow> bool" where
  "has_data_block block =
     (case get_prop block ''data'' of
        Inr (Some d) \<Rightarrow> (case get_prop d ''block'' of Inr (Some b) \<Rightarrow> True | _ \<Rightarrow> False)
      | _ \<Rightarrow> False)"

text \<open>
  The specification's ``trims'': white space taken off both ends, as
  \<^verbatim>\<open>String.prototype.trim\<close> does for the ASCII white space.
\<close>

definition is_space :: "char \<Rightarrow> bool" where
  "is_space c = (c \<in> set [CHR '' '', CHR 0x09, CHR 0x0A, CHR 0x0B, CHR 0x0C, CHR 0x0D])"

definition spec_trim :: "string \<Rightarrow> string" where
  "spec_trim v = rev (dropWhile is_space (rev (dropWhile is_space v)))"

section \<open>A small chain to run the page on\<close>

text \<open>
  An instance of the imports: a chain that counts its blocks, takes the text of a block
  as its tip, rejects the empty text, and keeps the watched addresses in a list.
\<close>

record demo_chain =
  d_height :: nat
  d_tip :: string
  d_ibd :: bool
  d_watched :: "string list"

definition demo_stringify :: "json \<Rightarrow> string" where
  "demo_stringify d = (case block_field d of Some (JStr b) \<Rightarrow> b | _ \<Rightarrow> [])"

definition demo_lib :: "demo_chain lib" where
  "demo_lib =
     \<lparr>new_chain = \<lparr>d_height = 0, d_tip = ''genesis'', d_ibd = True, d_watched = []\<rparr>,
      height = d_height,
      tip = d_tip,
      network = (\<lambda>c. ''regtest''),
      ibd = d_ibd,
      difficulty = (\<lambda>c. 1),
      target = (\<lambda>c. 1),
      our_txs = (\<lambda>c. []),
      accept_block = (\<lambda>p c. if p = [] then None
                              else Some (c\<lparr>d_height := d_height c + 1, d_tip := p\<rparr>)),
      toggle_ibd = (\<lambda>c. c\<lparr>d_ibd := \<not> d_ibd c\<rparr>),
      add_address = (\<lambda>a c. if a = [] \<or> CHR ''!'' \<in> set a then None
                             else Some (c\<lparr>d_watched := List.insert a (d_watched c)\<rparr>)),
      get_random_address =
        (\<lambda>c. (''bcrt1qdemo'', c\<lparr>d_watched := List.insert ''bcrt1qdemo'' (d_watched c)\<rparr>)),
      stringify = demo_stringify\<rparr>"

definition demo_data :: "nat \<Rightarrow> json" where
  "demo_data h = JObj [(''block'', JStr (replicate h CHR ''b''))]"

definition demo_end :: json where
  "demo_end = JObj [(''data'', JNull), (''error'', JStr ''not found'')]"

text \<open>A source that has \<open>K\<close> blocks.\<close>

definition demo_source :: "nat \<Rightarrow> nat \<Rightarrow> response" where
  "demo_source K h =
     (if 1 \<le> h \<and> h \<le> K then Body (JObj [(''data'', demo_data h), (''error'', JNull)])
      else Body demo_end)"

text \<open>A source whose third block the chain rejects.\<close>

definition demo_source_bad :: "nat \<Rightarrow> response" where
  "demo_source_bad h =
     (if h = 3 then Body (JObj [(''data'', JObj [(''block'', JStr [])])])
      else demo_source 5 h)"

text \<open>The chain after \<open>i\<close> blocks of \<open>demo_source\<close>.\<close>

definition demo_chain_at :: "nat \<Rightarrow> demo_chain" where
  "demo_chain_at i =
     \<lparr>d_height = i, d_tip = (if i = 0 then ''genesis'' else replicate i CHR ''b''),
      d_ibd = True, d_watched = []\<rparr>"

section \<open>Facts about one turn and about a whole run\<close>

lemma fetch_block_present_truthy: "fetch_block r = BlockPresent d \<Longrightarrow> truthy d"
  by (auto simp: fetch_block_def split: response.splits sum.splits option.splits if_splits)

lemma truthy_block_field: "truthy d \<Longrightarrow> get_prop d ''block'' = Inr (block_field d)"
  by (cases d) (auto simp: block_field_def)

lemma turn_present:
  assumes "fetch_block r = BlockPresent d"
    and "accept_block L (stringify L d) (florestaChain s) = Some c"
  shows "update_tip_turn L r h s =
    Continue (s\<lparr>florestaChain := c,
      calls := calls s @ [LogAddingBlock (block_field d) h, AcceptBlock (stringify L d) True]\<rparr>)"
  using assms truthy_block_field[OF fetch_block_present_truthy[OF assms(1)]]
  by (simp add: update_tip_turn_def call_def Let_def)

lemma turn_rejected:
  assumes "fetch_block r = BlockPresent d"
    and "accept_block L (stringify L d) (florestaChain s) = None"
  shows "update_tip_turn L r h s =
    Raise ValidationError (s\<lparr>calls := calls s @
      [LogAddingBlock (block_field d) h, AcceptBlock (stringify L d) False]\<rparr>)"
  using assms truthy_block_field[OF fetch_block_present_truthy[OF assms(1)]]
  by (simp add: update_tip_turn_def call_def Let_def)

lemma turn_absent: "fetch_block r = BlockAbsent \<Longrightarrow> update_tip_turn L r h s = Break s"
  by (simp add: update_tip_turn_def)

lemma turn_failed: "fetch_block r = FetchFailed e \<Longrightarrow> update_tip_turn L r h s = Raise e s"
  by (simp add: update_tip_turn_def)

lemma run_calls_end: "run_calls L d K K = [Fetch (K + 1)]"
  by (simp add: run_calls_def)

lemma run_calls_step:
  assumes "j < K"
  shows "run_calls L d j K = turn_calls L d (j + 1) @ run_calls L d (j + 1) K"
proof -
  from assms have "[j + 1..<K + 1] = (j + 1) # [j + 1 + 1..<K + 1]"
    by (simp add: upt_conv_Cons)
  then show ?thesis
    unfolding run_calls_def by simp
qed

lemma loop_run:
  assumes present: "\<And>h. 1 \<le> h \<Longrightarrow> h \<le> K \<Longrightarrow> fetch_block (src h) = BlockPresent (d h)"
    and absent: "fetch_block (src (K + 1)) = BlockAbsent"
    and accepted: "\<And>i. i < K \<Longrightarrow> accept_block L (stringify L (d (i + 1))) (cs i) = Some (cs (i + 1))"
  shows "j \<le> K \<Longrightarrow> florestaChain s = cs j \<Longrightarrow>
    update_tip_loop L src (j + 1) s =
      Some (Returned (s\<lparr>florestaChain := cs K, calls := calls s @ run_calls L d j K\<rparr>))"
proof (induction "K - j" arbitrary: j s)
  case 0
  then have "j = K" by simp
  with 0 absent show ?case
    by (subst update_tip_loop.simps) (simp add: turn_absent call_def run_calls_end)
next
  case (Suc n)
  then have lt: "j < K" by simp
  let ?s' = "s\<lparr>florestaChain := cs (j + 1), calls := calls s @ turn_calls L d (j + 1)\<rparr>"
  have turn: "update_tip_turn L (src (j + 1)) (j + 1) (call (Fetch (j + 1)) s) = Continue ?s'"
    using turn_present[OF present[of "j + 1"], of L "call (Fetch (j + 1)) s" "cs (j + 1)" "j + 1"]
      accepted[OF lt] lt Suc.prems(2)
    by (simp add: call_def turn_calls_def)
  have unfold: "update_tip_loop L src (j + 1) s = update_tip_loop L src (j + 1 + 1) ?s'"
    by (subst update_tip_loop.simps) (simp only: turn iteration.case)
  have "update_tip_loop L src (j + 1 + 1) ?s' =
      Some (Returned (?s'\<lparr>florestaChain := cs K, calls := calls ?s' @ run_calls L d (j + 1) K\<rparr>))"
    using Suc.hyps(1)[of "j + 1" ?s'] Suc.hyps(2) lt by simp
  then show ?case
    unfolding unfold by (simp add: run_calls_step[OF lt])
qed

lemma map_filter_append: "List.map_filter f (xs @ ys) = List.map_filter f xs @ List.map_filter f ys"
  by (simp add: List.map_filter_def)

lemma applied_turns:
  "List.map_filter accepted_payload (concat (map (turn_calls L d) hs)) = map (\<lambda>h. stringify L (d h)) hs"
  by (induction hs) (simp_all add: List.map_filter_simps turn_calls_def map_filter_append)

lemma applied_run_calls:
  "List.map_filter accepted_payload (run_calls L d j K) = map (\<lambda>h. stringify L (d h)) [j + 1..<K + 1]"
  unfolding run_calls_def by (simp only: map_filter_append applied_turns) (simp add: List.map_filter_simps)

lemma fetched_turns:
  "List.map_filter fetched_height (concat (map (turn_calls L d) hs)) = hs"
  by (induction hs) (simp_all add: List.map_filter_simps turn_calls_def map_filter_append)

lemma fetched_run_calls:
  "j \<le> K \<Longrightarrow> List.map_filter fetched_height (run_calls L d j K) = [j + 1..<K + 2]"
  unfolding run_calls_def by (simp only: map_filter_append fetched_turns) (simp add: List.map_filter_simps)

lemma toggles_turns:
  "filter (\<lambda>e. e = ToggleIbd) (concat (map (turn_calls L d) hs)) = []"
  by (induction hs) (simp_all add: turn_calls_def)

lemma toggles_run_calls: "filter (\<lambda>e. e = ToggleIbd) (run_calls L d j K) = []"
  unfolding run_calls_def by (simp add: toggles_turns)

lemma update_ui_calls: "calls (update_ui L s) = calls s"
  by (simp add: update_ui_def Let_def)

lemma update_ui_chain: "florestaChain (update_ui L s) = florestaChain s"
  by (simp add: update_ui_def Let_def)

lemma update_ui_pending: "pending (update_ui L s) = pending s"
  by (simp add: update_ui_def Let_def)

lemma update_ui_start: "start_disabled (update_ui L s) = start_disabled s"
  by (simp add: update_ui_def Let_def)

lemma update_ui_last_tip: "last_tip (update_ui L s) = Some (tip L (florestaChain s))"
  by (simp add: update_ui_def Let_def)

lemma run_demo: "run demo_lib =
  \<lparr>florestaChain = demo_chain_at 0, last_tip = Some ''genesis'', wallet_value = [],
   start_disabled = False,
   rendered = [(\<lparr>s_tip = ''genesis'', s_height = 0, s_network = ''regtest'', s_ibd = True,
                  s_difficulty = 1, s_target = 1\<rparr>, [])],
   calls = [LogLoaded 0], pending = []\<rparr>"
  by (simp add: run_def demo_lib_def demo_chain_at_def call_def update_ui_def snapshot_of_def Let_def)

lemma demo_present: "1 \<le> h \<Longrightarrow> h \<le> K \<Longrightarrow> fetch_block (demo_source K h) = BlockPresent (demo_data h)"
  by (simp add: demo_source_def fetch_block_def demo_data_def)

lemma demo_absent: "fetch_block (demo_source K (K + 1)) = BlockAbsent"
  by (simp add: demo_source_def fetch_block_def demo_end_def)

lemma demo_accepted:
  "accept_block demo_lib (stringify demo_lib (demo_data (i + 1))) (demo_chain_at i) =
     Some (demo_chain_at (i + 1))"
  by (simp add: demo_lib_def demo_stringify_def demo_data_def block_field_def demo_chain_at_def)

lemma demo_grows: "accept_block demo_lib p c = Some c' \<Longrightarrow> height demo_lib c' = height demo_lib c + 1"
  by (auto simp: demo_lib_def split: if_splits)

lemma demo_height_run: "height demo_lib (florestaChain (run demo_lib)) = 0"
  by (simp add: run_demo) (simp add: demo_lib_def demo_chain_at_def)

lemma turn_continue_accept:
  "update_tip_turn L r h s = Continue s' \<Longrightarrow>
     \<exists>p. accept_block L p (florestaChain s) = Some (florestaChain s')"
  by (auto simp: update_tip_turn_def call_def Let_def
      split: fetch_result.splits sum.splits option.splits)


lemma turn_continue_height:
  assumes "grows L" and "update_tip_turn L r h (call (Fetch k) s) = Continue s'"
  shows "height L (florestaChain s') = height L (florestaChain s) + 1"
proof -
  from turn_continue_accept[OF assms(2)] obtain p
    where "accept_block L p (florestaChain (call (Fetch k) s)) = Some (florestaChain s')" ..
  with assms(1) show ?thesis
    by (auto simp: grows_def call_def)
qed

lemma loop_imp_spec:
  assumes "update_tip_loop L src h s = Some y"
  shows "grows L \<longrightarrow> h = height L (florestaChain s) + 1 \<longrightarrow> update_tip_spec L src s = Some y"
proof (rule update_tip_loop.raw_induct[where L = L and src = src and h = h and s = s and y = y
      and P = "\<lambda>L src h s y. grows L \<longrightarrow> h = height L (florestaChain s) + 1 \<longrightarrow>
        update_tip_spec L src s = Some y"])
  show "update_tip_loop L src h s = Some y" by (rule assms)
next
  fix loop :: "'a lib \<Rightarrow> (nat \<Rightarrow> response) \<Rightarrow> nat \<Rightarrow> 'a page \<Rightarrow> 'a page outcome option"
  fix L :: "'a lib" and src h and s :: "'a page" and y
  assume 1: "\<And>L src h s y. loop L src h s = Some y \<Longrightarrow> grows L \<longrightarrow>
      h = height L (florestaChain s) + 1 \<longrightarrow> update_tip_spec L src s = Some y"
    "(case update_tip_turn L (src h) h (call (Fetch h) s) of
        Continue s' \<Rightarrow> loop L src (h + 1) s'
      | Break s' \<Rightarrow> Some (Returned s')
      | Raise e s' \<Rightarrow> Some (Thrown e s')) = Some y"
  show "grows L \<longrightarrow> h = height L (florestaChain s) + 1 \<longrightarrow> update_tip_spec L src s = Some y"
  proof (intro impI)
    assume g: "grows L" and h: "h = height L (florestaChain s) + 1"
    show "update_tip_spec L src s = Some y"
    proof (cases "update_tip_turn L (src h) h (call (Fetch h) s)")
      case (Continue s')
      with 1(2) have "loop L src (h + 1) s' = Some y" by simp
      moreover have "h + 1 = height L (florestaChain s') + 1"
        using turn_continue_height[OF g Continue] h by simp
      ultimately have "update_tip_spec L src s' = Some y"
        using 1(1) g by blast
      with Continue h show ?thesis
        by (subst update_tip_spec.simps) simp
    next
      case (Break s')
      with 1(2) h show ?thesis
        by (subst update_tip_spec.simps) simp
    next
      case (Raise e s')
      with 1(2) h show ?thesis
        by (subst update_tip_spec.simps) simp
    qed
  qed
qed

lemma spec_imp_loop:
  assumes "update_tip_spec L src s = Some y"
  shows "grows L \<longrightarrow> update_tip_loop L src (height L (florestaChain s) + 1) s = Some y"
proof (rule update_tip_spec.raw_induct[where L = L and src = src and s = s and y = y
      and P = "\<lambda>L src s y. grows L \<longrightarrow>
        update_tip_loop L src (height L (florestaChain s) + 1) s = Some y"])
  show "update_tip_spec L src s = Some y" by (rule assms)
next
  fix spec :: "'a lib \<Rightarrow> (nat \<Rightarrow> response) \<Rightarrow> 'a page \<Rightarrow> 'a page outcome option"
  fix L :: "'a lib" and src and s :: "'a page" and y
  let ?h = "height L (florestaChain s) + 1"
  assume 1: "\<And>L src s y. spec L src s = Some y \<Longrightarrow> grows L \<longrightarrow>
      update_tip_loop L src (height L (florestaChain s) + 1) s = Some y"
    "(case update_tip_turn L (src ?h) ?h (call (Fetch ?h) s) of
        Continue s' \<Rightarrow> spec L src s'
      | Break s' \<Rightarrow> Some (Returned s')
      | Raise e s' \<Rightarrow> Some (Thrown e s')) = Some y"
  show "grows L \<longrightarrow> update_tip_loop L src ?h s = Some y"
  proof (intro impI)
    assume g: "grows L"
    show "update_tip_loop L src ?h s = Some y"
    proof (cases "update_tip_turn L (src ?h) ?h (call (Fetch ?h) s)")
      case (Continue s')
      with 1(2) have "spec L src s' = Some y" by simp
      then have "update_tip_loop L src (height L (florestaChain s') + 1) s' = Some y"
        using 1(1) g by blast
      moreover have "height L (florestaChain s') + 1 = ?h + 1"
        using turn_continue_height[OF g Continue] by simp
      ultimately show ?thesis
        using Continue by (subst update_tip_loop.simps) simp
    next
      case (Break s')
      with 1(2) show ?thesis
        by (subst update_tip_loop.simps) simp
    next
      case (Raise e s')
      with 1(2) show ?thesis
        by (subst update_tip_loop.simps) simp
    qed
  qed
qed

lemma loop_continue:
  "update_tip_turn L r h (call (Fetch h) s) = Continue s' \<Longrightarrow> src h = r \<Longrightarrow>
     update_tip_loop L src h s = update_tip_loop L src (h + 1) s'"
  by (subst update_tip_loop.simps) simp

lemma loop_raise:
  "update_tip_turn L r h (call (Fetch h) s) = Raise e s' \<Longrightarrow> src h = r \<Longrightarrow>
     update_tip_loop L src h s = Some (Thrown e s')"
  by (subst update_tip_loop.simps) simp

lemma loop_break:
  "update_tip_turn L r h (call (Fetch h) s) = Break s' \<Longrightarrow> src h = r \<Longrightarrow>
     update_tip_loop L src h s = Some (Returned s')"
  by (subst update_tip_loop.simps) simp

lemma fetch_block_transport:
  "r = NetworkError \<or> r = Unparsable \<Longrightarrow> fetch_block r = FetchFailed TransportError"
  by (auto simp: fetch_block_def)

lemma fetch_block_absent:
  "fetch_block r = BlockAbsent \<Longrightarrow> \<exists>block. r = Body block \<and> block \<noteq> JNull \<and> \<not> data_truthy block"
  by (cases r) (auto simp: fetch_block_def data_truthy_def split: sum.splits option.splits if_splits)

lemma turn_continue_present:
  "update_tip_turn L r h s = Continue s' \<Longrightarrow> \<exists>d. fetch_block r = BlockPresent d"
  by (auto simp: update_tip_turn_def split: fetch_result.splits)

lemma turn_break_absent:
  "update_tip_turn L r h s = Break s' \<Longrightarrow> fetch_block r = BlockAbsent"
  by (auto simp: update_tip_turn_def Let_def split: fetch_result.splits sum.splits option.splits)

lemma loop_returned:
  assumes "update_tip_loop L src h s = Some y"
  shows "\<forall>s'. y = Returned s' \<longrightarrow>
    (\<exists>k\<ge>h. fetch_block (src k) = BlockAbsent \<and>
      (\<forall>i. h \<le> i \<and> i < k \<longrightarrow> (\<exists>d. fetch_block (src i) = BlockPresent d)))"
proof (rule update_tip_loop.raw_induct[where L = L and src = src and h = h and s = s and y = y
      and P = "\<lambda>L src h s y. \<forall>s'. y = Returned s' \<longrightarrow>
        (\<exists>k\<ge>h. fetch_block (src k) = BlockAbsent \<and>
          (\<forall>i. h \<le> i \<and> i < k \<longrightarrow> (\<exists>d. fetch_block (src i) = BlockPresent d)))"])
  show "update_tip_loop L src h s = Some y" by (rule assms)
next
  fix loop :: "'a lib \<Rightarrow> (nat \<Rightarrow> response) \<Rightarrow> nat \<Rightarrow> 'a page \<Rightarrow> 'a page outcome option"
  fix L :: "'a lib" and src h and s :: "'a page" and y
  assume IH: "\<And>L src h s y. loop L src h s = Some y \<Longrightarrow> \<forall>s'. y = Returned s' \<longrightarrow>
        (\<exists>k\<ge>h. fetch_block (src k) = BlockAbsent \<and>
          (\<forall>i. h \<le> i \<and> i < k \<longrightarrow> (\<exists>d. fetch_block (src i) = BlockPresent d)))"
    and body: "(case update_tip_turn L (src h) h (call (Fetch h) s) of
        Continue s' \<Rightarrow> loop L src (h + 1) s'
      | Break s' \<Rightarrow> Some (Returned s')
      | Raise e s' \<Rightarrow> Some (Thrown e s')) = Some y"
  show "\<forall>s'. y = Returned s' \<longrightarrow>
        (\<exists>k\<ge>h. fetch_block (src k) = BlockAbsent \<and>
          (\<forall>i. h \<le> i \<and> i < k \<longrightarrow> (\<exists>d. fetch_block (src i) = BlockPresent d)))"
  proof (intro allI impI)
    fix s' assume y: "y = Returned s'"
    show "\<exists>k\<ge>h. fetch_block (src k) = BlockAbsent \<and>
          (\<forall>i. h \<le> i \<and> i < k \<longrightarrow> (\<exists>d. fetch_block (src i) = BlockPresent d))"
    proof (cases "update_tip_turn L (src h) h (call (Fetch h) s)")
      case (Continue t)
      with body have "loop L src (h + 1) t = Some y" by simp
      from IH[OF this] y obtain k where k: "h + 1 \<le> k" "fetch_block (src k) = BlockAbsent"
        "\<forall>i. h + 1 \<le> i \<and> i < k \<longrightarrow> (\<exists>d. fetch_block (src i) = BlockPresent d)"
        by blast
      from turn_continue_present[OF Continue] obtain d where d: "fetch_block (src h) = BlockPresent d" ..
      have "\<forall>i. h \<le> i \<and> i < k \<longrightarrow> (\<exists>d. fetch_block (src i) = BlockPresent d)"
      proof (intro allI impI)
        fix i assume i: "h \<le> i \<and> i < k"
        show "\<exists>d. fetch_block (src i) = BlockPresent d"
        proof (cases "i = h")
          case True with d show ?thesis by blast
        next
          case False with i have "h + 1 \<le> i \<and> i < k" by simp
          with k(3) show ?thesis by blast
        qed
      qed
      with k(1) k(2) show ?thesis
        by (intro exI[of _ k]) simp
    next
      case (Break t)
      from turn_break_absent[OF Break] show ?thesis
        by (intro exI[of _ h]) auto
    next
      case (Raise e t)
      with body y show ?thesis by simp
    qed
  qed
qed

lemma has_data_block_truthy: "has_data_block block \<Longrightarrow> data_truthy block"
proof -
  assume h: "has_data_block block"
  then obtain d where d: "get_prop block ''data'' = Inr (Some d)"
    by (auto simp: has_data_block_def split: sum.splits option.splits)
  with h obtain b where "get_prop d ''block'' = Inr (Some b)"
    by (auto simp: has_data_block_def split: sum.splits option.splits)
  then have "truthy d"
    by (cases d) auto
  with d show ?thesis
    by (simp add: data_truthy_def)
qed

lemma add_address_added:
  "added (state_of (add_address_to_wallet L s)) = added s @ [wallet_value s]"
  by (cases "add_address L (wallet_value s) (florestaChain s)")
    (simp_all add: add_address_to_wallet_def state_of_def call_def Let_def added_def
      map_filter_append List.map_filter_simps)

lemma update_ui_same: "last_tip s = Some (tip L (florestaChain s)) \<Longrightarrow> update_ui L s = s"
  by (simp add: update_ui_def Let_def)

lemma update_ui_new:
  "last_tip s \<noteq> Some (tip L (florestaChain s)) \<Longrightarrow>
   update_ui L s = s\<lparr>last_tip := Some (tip L (florestaChain s)),
     rendered := rendered s @ [(snapshot_of L (florestaChain s), our_txs L (florestaChain s))]\<rparr>"
  by (auto simp: update_ui_def Let_def)

lemma update_ui_idem: "update_ui L (update_ui L s) = update_ui L s"
  by (rule update_ui_same) (simp add: update_ui_last_tip update_ui_chain)

lemma toggles_call: "toggles (call e s) = toggles s + (if e = ToggleIbd then 1 else 0)"
  by (simp add: toggles_def call_def)

lemma toggles_update_ui: "toggles (update_ui L s) = toggles s"
  by (simp add: toggles_def update_ui_calls)

lemma starts_waiting_update_ui: "starts_waiting (update_ui L s) = starts_waiting s"
  by (simp add: starts_waiting_def update_ui_pending)

lemma turn_keeps:
  assumes "update_tip_turn L r h s = Continue s' \<or> update_tip_turn L r h s = Break s'
    \<or> update_tip_turn L r h s = Raise e s'"
  shows "toggles s' = toggles s \<and> pending s' = pending s \<and> start_disabled s' = start_disabled s
    \<and> last_tip s' = last_tip s \<and> rendered s' = rendered s \<and> wallet_value s' = wallet_value s"
  using assms
  by (auto simp: update_tip_turn_def call_def Let_def toggles_def
      split: fetch_result.splits sum.splits option.splits)

lemma begin_keeps:
  "toggles (update_tip_begin L org s) = toggles s
   \<and> start_disabled (update_tip_begin L org s) = start_disabled s
   \<and> starts_waiting (update_tip_begin L org s) =
       starts_waiting s + (if org = ByStart then 1 else 0)"
  by (simp add: update_tip_begin_def Let_def call_def toggles_def starts_waiting_def)

lemma rest_keeps:
  "toggles (sync_loop_rest L s) = toggles s + 1
   \<and> start_disabled (sync_loop_rest L s)
   \<and> pending (sync_loop_rest L s) = pending s"
  by (simp add: sync_loop_rest_def Let_def toggles_def update_ui_calls update_ui_pending call_def)

lemma add_address_keeps:
  "toggles (state_of (add_address_to_wallet L s)) = toggles s
   \<and> pending (state_of (add_address_to_wallet L s)) = pending s
   \<and> start_disabled (state_of (add_address_to_wallet L s)) = start_disabled s"
  by (cases "add_address L (wallet_value s) (florestaChain s)")
    (simp_all add: add_address_to_wallet_def state_of_def call_def Let_def toggles_def)

lemma add_random_keeps:
  "toggles (state_of (add_random_address_to_wallet L s)) = toggles s
   \<and> pending (state_of (add_random_address_to_wallet L s)) = pending s
   \<and> start_disabled (state_of (add_random_address_to_wallet L s)) = start_disabled s"
proof (cases "get_random_address L (florestaChain s)")
  case (Pair wallet c)
  let ?s3 = "call (Alert (''Address '' @ wallet @ '' added to wallet''))
      ((call GetRandomAddress (s\<lparr>florestaChain := c\<rparr>))\<lparr>wallet_value := wallet\<rparr>)"
  have "add_random_address_to_wallet L s = add_address_to_wallet L ?s3"
    by (simp add: add_random_address_to_wallet_def Pair)
  moreover have "toggles ?s3 = toggles s \<and> pending ?s3 = pending s
      \<and> start_disabled ?s3 = start_disabled s"
    by (simp add: call_def toggles_def)
  ultimately show ?thesis
    using add_address_keeps[of L ?s3] by simp
qed

lemma timer_tick_toggles: "toggles (timer_tick L s) = toggles s"
  by (simp add: timer_tick_def Let_def begin_keeps toggles_update_ui)

lemma timer_tick_keeps:
  "starts_waiting (timer_tick L s) = starts_waiting s
   \<and> start_disabled (timer_tick L s) = start_disabled s"
  by (simp add: timer_tick_def Let_def begin_keeps starts_waiting_update_ui update_ui_start)


lemma starts_waiting_remove:
  assumes "i < length ps"
  shows "length (filter (\<lambda>t. t_origin t = ByStart) (take i ps @ drop (Suc i) ps)) =
    length (filter (\<lambda>t. t_origin t = ByStart) ps) - (if t_origin (ps ! i) = ByStart then 1 else 0)"
proof -
  from assms have "ps = take i ps @ (ps ! i) # drop (Suc i) ps"
    by (rule id_take_nth_drop)
  then have "filter (\<lambda>t. t_origin t = ByStart) ps =
      filter (\<lambda>t. t_origin t = ByStart) (take i ps) @
      filter (\<lambda>t. t_origin t = ByStart) ((ps ! i) # drop (Suc i) ps)"
    by (metis filter_append)
  then show ?thesis
    by simp
qed

lemma starts_waiting_present:
  "i < length ps \<Longrightarrow> t_origin (ps ! i) = ByStart \<Longrightarrow>
     0 < length (filter (\<lambda>t. t_origin t = ByStart) ps)"
  by (auto simp: length_greater_0_conv filter_empty_conv intro: nth_mem)

lemma deliver_inv:
  assumes "toggle_inv s"
  shows "toggle_inv (deliver L i r s)"
proof (cases "length (pending s) \<le> i")
  case True
  with assms show ?thesis by (simp add: deliver_def)
next
  case False
  then have i: "i < length (pending s)" by simp
  let ?t = "pending s ! i"
  let ?others = "take i (pending s) @ drop (Suc i) (pending s)"
  let ?s0 = "s\<lparr>pending := ?others\<rparr>"
  have w0: "starts_waiting ?s0 = starts_waiting s - (if t_origin ?t = ByStart then 1 else 0)"
    using starts_waiting_remove[OF i] by (simp add: starts_waiting_def)
  have t0: "toggles ?s0 = toggles s" "start_disabled ?s0 = start_disabled s"
    by (simp_all add: toggles_def)
  show ?thesis
  proof (cases "update_tip_turn L r (t_height ?t) ?s0")
    case (Continue s')
    from turn_keeps[of L r "t_height ?t" ?s0 s'] Continue
    have k: "toggles s' = toggles s" "pending s' = ?others" "start_disabled s' = start_disabled s"
      using t0 by simp_all
    let ?s'' = "(call (Fetch (t_height ?t + 1)) s')
        \<lparr>pending := ?others @ [?t\<lparr>t_height := t_height ?t + 1\<rparr>]\<rparr>"
    have d: "deliver L i r s = ?s''"
      using False Continue by (simp add: deliver_def Let_def)
    have "toggles ?s'' = toggles s" "start_disabled ?s'' = start_disabled s"
      using k by (simp_all add: toggles_def call_def)
    moreover have "starts_waiting ?s'' = starts_waiting s"
      using starts_waiting_remove[OF i] starts_waiting_present[OF i]
      by (auto simp: starts_waiting_def)
    ultimately show ?thesis
      using assms unfolding d toggle_inv_def by (simp split: if_splits)
  next
    case (Break s')
    from turn_keeps[of L r "t_height ?t" ?s0 s'] Break
    have k: "toggles s' = toggles s" "pending s' = ?others" "start_disabled s' = start_disabled s"
      using t0 by simp_all
    then have w: "starts_waiting s' = starts_waiting s - (if t_origin ?t = ByStart then 1 else 0)"
      using w0 by (simp add: starts_waiting_def)
    show ?thesis
    proof (cases "t_origin ?t")
      case ByStart
      then have d: "deliver L i r s = sync_loop_rest L s'"
        using False Break by (simp add: deliver_def Let_def)
      have pos: "0 < starts_waiting s"
        using starts_waiting_present[OF i ByStart] by (simp add: starts_waiting_def)
      with assms have z: "toggles s = 0" "starts_waiting s = 1"
        by (auto simp: toggle_inv_def split: if_splits)
      have "starts_waiting (sync_loop_rest L s') = starts_waiting s'"
        using rest_keeps[of L s'] by (simp add: starts_waiting_def)
      with rest_keeps[of L s'] k w z ByStart show ?thesis
        unfolding d toggle_inv_def by simp
    next
      case ByTimer
      then have d: "deliver L i r s = s'"
        using False Break by (simp add: deliver_def Let_def)
      from assms k w ByTimer show ?thesis
        unfolding d toggle_inv_def by (simp split: if_splits)
    qed
  next
    case (Raise e s')
    from turn_keeps[of L r "t_height ?t" ?s0 s' e] Raise
    have k: "toggles s' = toggles s" "pending s' = ?others" "start_disabled s' = start_disabled s"
      using t0 by simp_all
    then have w: "starts_waiting s' = starts_waiting s - (if t_origin ?t = ByStart then 1 else 0)"
      using w0 by (simp add: starts_waiting_def)
    have d: "deliver L i r s = s'"
      using False Raise by (simp add: deliver_def Let_def)
    from assms k w show ?thesis
      unfolding d toggle_inv_def by (auto split: if_splits)
  qed
qed

lemma step_inv:
  assumes "toggle_inv s" and "case a of ClickStart \<Rightarrow> starts_waiting s = 0 | _ \<Rightarrow> True"
  shows "toggle_inv (step L a s)"
proof (cases a)
  case ClickStart
  with assms show ?thesis
    by (auto simp: click_start_def begin_keeps toggle_inv_def split: if_splits)
next
  case ClickAddWallet
  with assms add_address_keeps[of L s] show ?thesis
    unfolding toggle_inv_def starts_waiting_def by (simp split: if_splits)
next
  case ClickRandomWallet
  with assms add_random_keeps[of L s] show ?thesis
    unfolding toggle_inv_def starts_waiting_def by (simp split: if_splits)
next
  case (TypeAddress v)
  with assms show ?thesis
    unfolding toggle_inv_def starts_waiting_def toggles_def by (simp split: if_splits)
next
  case TimerTick
  with assms timer_tick_keeps[of L s] timer_tick_toggles[of L s] show ?thesis
    unfolding toggle_inv_def by (simp split: if_splits)
next
  case (Deliver i r)
  with assms deliver_inv[of s L i r] show ?thesis
    by simp
qed

lemma exec_inv:
  "toggle_inv s \<Longrightarrow> starts_spaced L as s \<Longrightarrow> toggle_inv (exec L as s)"
proof (induction as arbitrary: s)
  case Nil
  then show ?case by simp
next
  case (Cons a as)
  from Cons.prems have "toggle_inv (step L a s)"
    by (intro step_inv) simp_all
  with Cons show ?case
    by simp
qed

lemma run_inv: "toggle_inv (run L)"
  by (simp add: run_def Let_def toggle_inv_def toggles_def starts_waiting_def
      update_ui_calls update_ui_pending call_def)

lemma deliver_timer_toggles:
  assumes "i < length (pending s)" and "t_origin (pending s ! i) = ByTimer"
  shows "toggles (deliver L i r s) = toggles s"
proof -
  let ?t = "pending s ! i"
  let ?s0 = "s\<lparr>pending := take i (pending s) @ drop (Suc i) (pending s)\<rparr>"
  have t0: "toggles ?s0 = toggles s"
    by (simp add: toggles_def)
  show ?thesis
  proof (cases "update_tip_turn L r (t_height ?t) ?s0")
    case (Continue s')
    with turn_keeps[of L r "t_height ?t" ?s0 s'] t0 assms show ?thesis
      by (simp add: deliver_def Let_def toggles_def call_def)
  next
    case (Break s')
    with turn_keeps[of L r "t_height ?t" ?s0 s'] t0 assms show ?thesis
      by (simp add: deliver_def Let_def)
  next
    case (Raise e s')
    with turn_keeps[of L r "t_height ?t" ?s0 s' e] t0 assms show ?thesis
      by (simp add: deliver_def Let_def)
  qed
qed






section \<open>The loop as a schedule of responses\<close>




section \<open>The sync loop on a source with \<open>K\<close> blocks\<close>

text \<open>
  Claim C1, as amended. For every \<open>K\<close>, when the block source gives a block for each of
  the heights 1 to \<open>K\<close> (each accepted by the chain) and no block for height \<open>K + 1\<close>, one
  call of \<^verbatim>\<open>sync_loop\<close> on a chain of height 0 returns; it has applied exactly these
  \<open>K\<close> blocks, in ascending order of height; it has called \<^verbatim>\<open>toggle_ibd\<close> once, as its
  last call; and it ends with \<^verbatim>\<open>update_ui\<close> on the toggled chain and the start button
  disabled. That call writes the chain to the page exactly when the tip of the chain is
  not the tip last rendered; when it is, the page is left as it was.
\<close>

theorem sync_loop_applies_all_blocks:
  assumes present: "\<And>h. 1 \<le> h \<Longrightarrow> h \<le> K \<Longrightarrow> fetch_block (src h) = BlockPresent (d h)"
    and absent: "fetch_block (src (K + 1)) = BlockAbsent"
    and accepted: "\<And>i. i < K \<Longrightarrow> accept_block L (stringify L (d (i + 1))) (cs i) = Some (cs (i + 1))"
    and chain: "florestaChain s = cs 0"
    and genesis: "height L (florestaChain s) = 0"
  shows "\<exists>s'. sync_loop L src s = Some (Returned s')
      \<and> applied s' = applied s @ map (\<lambda>h. stringify L (d h)) [1..<K + 1]
      \<and> fetched s' = fetched s @ [1..<K + 2]
      \<and> toggles s' = toggles s + 1
      \<and> last (calls s') = ToggleIbd
      \<and> s' = (update_ui L (s\<lparr>florestaChain := toggle_ibd L (cs K),
                  calls := calls s @ run_calls L d 0 K @ [ToggleIbd]\<rparr>))\<lparr>start_disabled := True\<rparr>
      \<and> last_tip s' = Some (tip L (toggle_ibd L (cs K)))
      \<and> rendered s' =
          (if last_tip s = Some (tip L (toggle_ibd L (cs K))) then rendered s
           else rendered s @ [(snapshot_of L (toggle_ibd L (cs K)),
                               our_txs L (toggle_ibd L (cs K)))])"
proof -
  let ?t = "s\<lparr>florestaChain := toggle_ibd L (cs K),
      calls := calls s @ run_calls L d 0 K @ [ToggleIbd]\<rparr>"
  let ?s' = "(update_ui L ?t)\<lparr>start_disabled := True\<rparr>"
  have "update_tip_loop L src (0 + 1) s =
      Some (Returned (s\<lparr>florestaChain := cs K, calls := calls s @ run_calls L d 0 K\<rparr>))"
    using loop_run[OF present absent accepted, of 0 s] chain by simp
  then have run: "sync_loop L src s = Some (Returned ?s')"
    by (simp add: sync_loop_def update_tip_def genesis sync_loop_rest_def Let_def call_def)
  have c: "calls ?s' = calls s @ run_calls L d 0 K @ [ToggleIbd]"
    by (simp add: update_ui_calls)
  have "applied ?s' = applied s @ map (\<lambda>h. stringify L (d h)) [1..<K + 1]"
    unfolding applied_def c by (simp add: map_filter_append applied_run_calls List.map_filter_simps)
  moreover have "fetched ?s' = fetched s @ [1..<K + 2]"
    unfolding fetched_def c by (simp add: map_filter_append fetched_run_calls List.map_filter_simps)
  moreover have "toggles ?s' = toggles s + 1"
    unfolding toggles_def c by (simp add: toggles_run_calls)
  moreover have "last (calls ?s') = ToggleIbd"
    unfolding c by simp
  moreover have "last_tip ?s' = Some (tip L (toggle_ibd L (cs K)))"
    by (simp add: update_ui_last_tip)
  moreover have "rendered ?s' =
      (if last_tip s = Some (tip L (toggle_ibd L (cs K))) then rendered s
       else rendered s @ [(snapshot_of L (toggle_ibd L (cs K)),
                           our_txs L (toggle_ibd L (cs K)))])"
    by (auto simp: update_ui_def Let_def)
  ultimately show ?thesis
    using run by blast
qed

theorem sync_loop_applies_all_blocks_witness:
  "\<exists>s'. sync_loop demo_lib (demo_source 3) (run demo_lib) = Some (Returned s')
      \<and> applied s' = [''b'', ''bb'', ''bbb'']
      \<and> fetched s' = [1, 2, 3, 4]
      \<and> toggles s' = 1
      \<and> last (calls s') = ToggleIbd
      \<and> start_disabled s'
      \<and> last_tip s' = Some ''bbb''
      \<and> rendered s' = rendered (run demo_lib) @
            [(snapshot_of demo_lib (toggle_ibd demo_lib (demo_chain_at 3)), [])]"
proof -
  have present: "\<And>h. 1 \<le> h \<Longrightarrow> h \<le> 3 \<Longrightarrow>
      fetch_block (demo_source 3 h) = BlockPresent (demo_data h)"
    by (simp add: demo_source_def fetch_block_def demo_data_def)
  have absent: "fetch_block (demo_source 3 (3 + 1)) = BlockAbsent"
    by (simp add: demo_source_def fetch_block_def demo_end_def)
  have accepted: "\<And>i. i < 3 \<Longrightarrow>
      accept_block demo_lib (stringify demo_lib (demo_data (i + 1))) (demo_chain_at i) =
        Some (demo_chain_at (i + 1))"
    by (simp add: demo_lib_def demo_stringify_def demo_data_def block_field_def demo_chain_at_def)
  have chain: "florestaChain (run demo_lib) = demo_chain_at 0"
    by (simp add: run_demo)
  have genesis: "height demo_lib (florestaChain (run demo_lib)) = 0"
    by (simp add: run_demo) (simp add: demo_lib_def demo_chain_at_def)
  from sync_loop_applies_all_blocks[OF present absent accepted chain genesis]
  obtain s' where r: "sync_loop demo_lib (demo_source 3) (run demo_lib) = Some (Returned s')"
    "applied s' = applied (run demo_lib) @ map (\<lambda>h. stringify demo_lib (demo_data h)) [1..<3 + 1]"
    "fetched s' = fetched (run demo_lib) @ [1..<3 + 2]"
    "toggles s' = toggles (run demo_lib) + 1"
    "last (calls s') = ToggleIbd"
    "s' = (update_ui demo_lib ((run demo_lib)\<lparr>florestaChain := toggle_ibd demo_lib (demo_chain_at 3),
       calls := calls (run demo_lib) @ run_calls demo_lib demo_data 0 3 @ [ToggleIbd]\<rparr>))
         \<lparr>start_disabled := True\<rparr>"
    "last_tip s' = Some (tip demo_lib (toggle_ibd demo_lib (demo_chain_at 3)))"
    "rendered s' =
      (if last_tip (run demo_lib) = Some (tip demo_lib (toggle_ibd demo_lib (demo_chain_at 3)))
       then rendered (run demo_lib)
       else rendered (run demo_lib) @
         [(snapshot_of demo_lib (toggle_ibd demo_lib (demo_chain_at 3)),
           our_txs demo_lib (toggle_ibd demo_lib (demo_chain_at 3)))])"
    by blast
  have tip3: "tip demo_lib (toggle_ibd demo_lib (demo_chain_at 3)) = ''bbb''"
    "our_txs demo_lib (toggle_ibd demo_lib (demo_chain_at 3)) = []"
    "last_tip (run demo_lib) = Some ''genesis''"
    by (simp_all add: run_demo) (simp_all add: demo_lib_def demo_chain_at_def numeral_3_eq_3)
  have upt: "[1..<3 + 1] = [1, 2, 3::nat]" "[1..<3 + 2] = [1, 2, 3, 4::nat]"
    by (simp_all add: upt_conv_Cons)
  have "applied (run demo_lib) = []"
    by (simp add: applied_def run_demo List.map_filter_simps)
  then have "applied s' = [''b'', ''bb'', ''bbb'']"
    unfolding r(2) upt
    by (simp add: demo_lib_def demo_stringify_def demo_data_def block_field_def
        numeral_2_eq_2 numeral_3_eq_3)
  moreover have "fetched s' = [1, 2, 3, 4]"
    unfolding r(3) upt by (simp add: fetched_def run_demo List.map_filter_simps)
  moreover have "toggles s' = 1"
    unfolding r(4) by (simp add: toggles_def run_demo)
  moreover have "start_disabled s'"
    unfolding r(6) by simp
  moreover have "last_tip s' = Some ''bbb''"
    unfolding r(7) tip3 ..
  moreover have "rendered s' = rendered (run demo_lib) @
      [(snapshot_of demo_lib (toggle_ibd demo_lib (demo_chain_at 3)), [])]"
    unfolding r(8) tip3 by simp
  ultimately show ?thesis
    using r(1) r(5) by blast
qed

text \<open>
  On a source with no block, run on the page as loaded, the chain is told that the sync is
  done and \<^verbatim>\<open>update_ui\<close> is called, but the tip is the one already shown: nothing is
  written, and the page goes on showing the flag as it was before the toggle.
\<close>

theorem sync_loop_applies_all_blocks_counterexample:
  "sync_loop demo_lib (demo_source 0) (run demo_lib) =
     Some (Returned ((run demo_lib)\<lparr>florestaChain := (demo_chain_at 0)\<lparr>d_ibd := False\<rparr>,
       start_disabled := True, calls := [LogLoaded 0, Fetch 1, ToggleIbd]\<rparr>))
   \<and> rendered ((run demo_lib)\<lparr>florestaChain := (demo_chain_at 0)\<lparr>d_ibd := False\<rparr>,
       start_disabled := True, calls := [LogLoaded 0, Fetch 1, ToggleIbd]\<rparr>) =
     rendered (run demo_lib)
   \<and> length (rendered (run demo_lib)) = 1
   \<and> s_ibd (fst (last (rendered (run demo_lib))))
   \<and> \<not> ibd demo_lib ((demo_chain_at 0)\<lparr>d_ibd := False\<rparr>)"
proof -
  have "update_tip_turn demo_lib (demo_source 0 1) 1 (call (Fetch 1) (run demo_lib)) =
      Break (call (Fetch 1) (run demo_lib))"
    using demo_absent[of 0] by (intro turn_absent) simp
  then have "update_tip_loop demo_lib (demo_source 0) 1 (run demo_lib) =
      Some (Returned (call (Fetch 1) (run demo_lib)))"
    by (rule loop_break) simp
  then have "sync_loop demo_lib (demo_source 0) (run demo_lib) =
      Some (Returned (sync_loop_rest demo_lib (call (Fetch 1) (run demo_lib))))"
    by (simp add: sync_loop_def update_tip_def demo_height_run)
  moreover have "sync_loop_rest demo_lib (call (Fetch 1) (run demo_lib)) =
      (run demo_lib)\<lparr>florestaChain := (demo_chain_at 0)\<lparr>d_ibd := False\<rparr>,
        start_disabled := True, calls := [LogLoaded 0, Fetch 1, ToggleIbd]\<rparr>"
    unfolding run_demo
    by (simp add: sync_loop_rest_def call_def update_ui_def Let_def demo_lib_def demo_chain_at_def)
  moreover have "length (rendered (run demo_lib)) = 1 \<and> s_ibd (fst (last (rendered (run demo_lib))))"
    unfolding run_demo by simp
  moreover have "\<not> ibd demo_lib ((demo_chain_at 0)\<lparr>d_ibd := False\<rparr>)"
    by (simp add: demo_lib_def)
  ultimately show ?thesis
    by simp
qed

section \<open>The local counter and the height of the chain\<close>

text \<open>
  Claim C6. \<^verbatim>\<open>update_tip\<close> reads the height of the chain once and then counts in a
  local variable. When every accepted block raises the height of the chain by exactly
  one, it is the loop of the specification, which reads the height of the chain on every
  turn: for every source and every page the two give the same result, and neither
  returns where the other does not.
\<close>

theorem update_tip_refines_spec:
  assumes "\<And>p c c'. accept_block L p c = Some c' \<Longrightarrow> height L c' = height L c + 1"
  shows "update_tip L src s = update_tip_spec L src s"
proof -
  have g: "grows L" using assms by (simp add: grows_def)
  show ?thesis
  proof (cases "update_tip L src s")
    case None
    show ?thesis
    proof (cases "update_tip_spec L src s")
      case (Some y)
      with spec_imp_loop[OF Some] g None show ?thesis
        by (simp add: update_tip_def)
    qed (simp add: None)
  next
    case (Some y)
    then show ?thesis
      using loop_imp_spec[of L src _ s y] g by (simp add: update_tip_def)
  qed
qed

theorem update_tip_refines_spec_witness:
  "update_tip demo_lib (demo_source 3) (run demo_lib) =
     update_tip_spec demo_lib (demo_source 3) (run demo_lib)
   \<and> update_tip_spec demo_lib (demo_source 3) (run demo_lib) =
     Some (Returned ((run demo_lib)\<lparr>florestaChain := demo_chain_at 3,
       calls := calls (run demo_lib) @ run_calls demo_lib demo_data 0 3\<rparr>))"
proof -
  have eq: "update_tip demo_lib (demo_source 3) (run demo_lib) =
      update_tip_spec demo_lib (demo_source 3) (run demo_lib)"
    by (rule update_tip_refines_spec) (rule demo_grows)
  have "update_tip_loop demo_lib (demo_source 3) (0 + 1) (run demo_lib) =
      Some (Returned ((run demo_lib)\<lparr>florestaChain := demo_chain_at 3,
        calls := calls (run demo_lib) @ run_calls demo_lib demo_data 0 3\<rparr>))"
    by (rule loop_run[where cs = demo_chain_at])
      (simp_all add: demo_present demo_absent[of 3, simplified] demo_accepted[simplified] run_demo)
  then show ?thesis
    using eq by (simp add: update_tip_def demo_height_run)
qed

section \<open>A block that the chain rejects\<close>

text \<open>
  Claim C2. When the block source gives blocks for the heights 1, 2 and 3, the chain (of
  height 0) accepts the first two and rejects the third, \<^verbatim>\<open>sync_loop\<close> applies exactly
  the blocks 1 and 2 and then throws the validation error at height 3: the chain is the
  one after block 2, of height 2, \<^verbatim>\<open>toggle_ibd\<close> is not called, and neither the start
  button nor the display is touched.
\<close>

theorem sync_loop_halts_on_rejected_block:
  assumes b1: "fetch_block (src 1) = BlockPresent d1"
    and b2: "fetch_block (src 2) = BlockPresent d2"
    and b3: "fetch_block (src 3) = BlockPresent d3"
    and chain: "florestaChain s = c0"
    and genesis: "height L c0 = 0"
    and a1: "accept_block L (stringify L d1) c0 = Some c1"
    and a2: "accept_block L (stringify L d2) c1 = Some c2"
    and a3: "accept_block L (stringify L d3) c2 = None"
    and inv: "\<And>p c c'. accept_block L p c = Some c' \<Longrightarrow> height L c' = height L c + 1"
  shows "\<exists>s'. sync_loop L src s = Some (Thrown ValidationError s')
      \<and> applied s' = applied s @ [stringify L d1, stringify L d2]
      \<and> fetched s' = fetched s @ [1, 2, 3]
      \<and> last (calls s') = AcceptBlock (stringify L d3) False
      \<and> florestaChain s' = c2
      \<and> height L (florestaChain s') = 2
      \<and> toggles s' = toggles s
      \<and> ibd L (florestaChain s') = ibd L c2
      \<and> start_disabled s' = start_disabled s
      \<and> rendered s' = rendered s"
proof -
  let ?s1 = "s\<lparr>florestaChain := c1, calls := calls s @
      [Fetch 1, LogAddingBlock (block_field d1) 1, AcceptBlock (stringify L d1) True]\<rparr>"
  let ?s2 = "?s1\<lparr>florestaChain := c2, calls := calls ?s1 @
      [Fetch 2, LogAddingBlock (block_field d2) 2, AcceptBlock (stringify L d2) True]\<rparr>"
  let ?s3 = "?s2\<lparr>calls := calls ?s2 @
      [Fetch 3, LogAddingBlock (block_field d3) 3, AcceptBlock (stringify L d3) False]\<rparr>"
  have t1: "update_tip_turn L (src 1) 1 (call (Fetch 1) s) = Continue ?s1"
    using turn_present[OF b1, of L "call (Fetch 1) s" c1 1] a1 chain by (simp add: call_def)
  have t2: "update_tip_turn L (src 2) 2 (call (Fetch 2) ?s1) = Continue ?s2"
    using turn_present[OF b2, of L "call (Fetch 2) ?s1" c2 2] a2 by (simp add: call_def)
  have t3: "update_tip_turn L (src 3) 3 (call (Fetch 3) ?s2) = Raise ValidationError ?s3"
    using turn_rejected[OF b3, of L "call (Fetch 3) ?s2" 3] a3 by (simp add: call_def)
  have n: "(1::nat) + 1 = 2" "(2::nat) + 1 = 3"
    by simp_all
  have "update_tip_loop L src 1 s = update_tip_loop L src 2 ?s1"
    using loop_continue[where src = src, OF t1 refl] unfolding n .
  also have "\<dots> = update_tip_loop L src 3 ?s2"
    using loop_continue[where src = src, OF t2 refl] unfolding n .
  also have "\<dots> = Some (Thrown ValidationError ?s3)"
    by (rule loop_raise[where src = src, OF t3 refl])
  finally have "sync_loop L src s = Some (Thrown ValidationError ?s3)"
    by (simp add: sync_loop_def update_tip_def chain genesis)
  moreover have "applied ?s3 = applied s @ [stringify L d1, stringify L d2]"
    by (simp add: applied_def map_filter_append List.map_filter_simps)
  moreover have "fetched ?s3 = fetched s @ [1, 2, 3]"
    by (simp add: fetched_def map_filter_append List.map_filter_simps)
  moreover have "height L c2 = 2"
    using inv[OF a1] inv[OF a2] genesis by simp
  moreover have "toggles ?s3 = toggles s"
    by (simp add: toggles_def)
  ultimately show ?thesis
    by (intro exI[of _ ?s3]) simp
qed

theorem sync_loop_halts_on_rejected_block_witness:
  "\<exists>s'. sync_loop demo_lib demo_source_bad (run demo_lib) = Some (Thrown ValidationError s')
      \<and> applied s' = [''b'', ''bb'']
      \<and> fetched s' = [1, 2, 3]
      \<and> last (calls s') = AcceptBlock [] False
      \<and> florestaChain s' = demo_chain_at 2
      \<and> height demo_lib (florestaChain s') = 2
      \<and> toggles s' = 0
      \<and> ibd demo_lib (florestaChain s')
      \<and> \<not> start_disabled s'
      \<and> length (rendered s') = 1"
proof -
  let ?bad = "JObj [(''block'', JStr [])]"
  have b1: "fetch_block (demo_source_bad 1) = BlockPresent (demo_data 1)"
    and b2: "fetch_block (demo_source_bad 2) = BlockPresent (demo_data 2)"
    and b3: "fetch_block (demo_source_bad 3) = BlockPresent ?bad"
    by (simp_all add: demo_source_bad_def demo_present) (simp add: fetch_block_def)
  have chain: "florestaChain (run demo_lib) = demo_chain_at 0"
    by (simp add: run_demo)
  have genesis: "height demo_lib (demo_chain_at 0) = 0"
    by (simp add: demo_lib_def demo_chain_at_def)
  have a1: "accept_block demo_lib (stringify demo_lib (demo_data 1)) (demo_chain_at 0) =
      Some (demo_chain_at 1)"
    using demo_accepted[of 0] by simp
  have a2: "accept_block demo_lib (stringify demo_lib (demo_data 2)) (demo_chain_at 1) =
      Some (demo_chain_at 2)"
    using demo_accepted[of 1] by (simp add: numeral_2_eq_2)
  have a3: "accept_block demo_lib (stringify demo_lib ?bad) (demo_chain_at 2) = None"
    by (simp add: demo_lib_def demo_stringify_def block_field_def)
  have s: "stringify demo_lib (demo_data 1) = ''b''" "stringify demo_lib (demo_data 2) = ''bb''"
    "stringify demo_lib ?bad = []"
    by (simp_all add: demo_lib_def demo_stringify_def block_field_def demo_data_def numeral_2_eq_2)
  have r: "applied (run demo_lib) = []" "fetched (run demo_lib) = []" "toggles (run demo_lib) = 0"
    "start_disabled (run demo_lib) = False" "length (rendered (run demo_lib)) = 1"
    by (simp_all add: run_demo applied_def fetched_def toggles_def List.map_filter_simps)
  have i: "ibd demo_lib (demo_chain_at 2)"
    by (simp add: demo_lib_def demo_chain_at_def)
  have inv: "\<And>p c c'. accept_block demo_lib p c = Some c' \<Longrightarrow>
      height demo_lib c' = height demo_lib c + 1"
    by (rule demo_grows)
  have "\<exists>s'. sync_loop demo_lib demo_source_bad (run demo_lib) = Some (Thrown ValidationError s')
      \<and> applied s' = applied (run demo_lib) @
            [stringify demo_lib (demo_data 1), stringify demo_lib (demo_data 2)]
      \<and> fetched s' = fetched (run demo_lib) @ [1, 2, 3]
      \<and> last (calls s') = AcceptBlock (stringify demo_lib ?bad) False
      \<and> florestaChain s' = demo_chain_at 2
      \<and> height demo_lib (florestaChain s') = 2
      \<and> toggles s' = toggles (run demo_lib)
      \<and> ibd demo_lib (florestaChain s') = ibd demo_lib (demo_chain_at 2)
      \<and> start_disabled s' = start_disabled (run demo_lib)
      \<and> rendered s' = rendered (run demo_lib)"
    by (rule sync_loop_halts_on_rejected_block[OF b1 b2 b3 chain genesis a1 a2 a3])
      (rule demo_grows)
  then show ?thesis
    unfolding s r using i r(5) by auto
qed

section \<open>Transport failures\<close>

text \<open>
  Claim C7. When the fetch rejects or the body of the response is not JSON, the turn of
  \<^verbatim>\<open>update_tip\<close> throws a transport error, \<^verbatim>\<open>update_tip\<close> throws it on, and so does
  \<^verbatim>\<open>sync_loop\<close>, with nothing done after the request. The end of the chain is found
  only in a parsed response: the loop breaks only on a body that is not null and whose
  \<^verbatim>\<open>data\<close> is missing or falsy, and a run of \<^verbatim>\<open>update_tip\<close> that returns has received a
  block at every height before the one where it stopped.
\<close>

theorem transport_failure_propagates:
  "(r = NetworkError \<or> r = Unparsable \<longrightarrow>
      fetch_block r = FetchFailed TransportError \<and> update_tip_turn L r h s = Raise TransportError s)
   \<and> (src h = NetworkError \<or> src h = Unparsable \<longrightarrow>
      update_tip_loop L src h s = Some (Thrown TransportError (call (Fetch h) s)))
   \<and> (src (height L (florestaChain s) + 1) = NetworkError
        \<or> src (height L (florestaChain s) + 1) = Unparsable \<longrightarrow>
      sync_loop L src s =
        Some (Thrown TransportError (call (Fetch (height L (florestaChain s) + 1)) s)))
   \<and> (fetch_block r = BlockAbsent \<longrightarrow>
      (\<exists>block. r = Body block \<and> block \<noteq> JNull \<and> \<not> data_truthy block))
   \<and> (update_tip_loop L src h s = Some (Returned s') \<longrightarrow>
      (\<exists>k\<ge>h. fetch_block (src k) = BlockAbsent \<and>
        (\<forall>i. h \<le> i \<and> i < k \<longrightarrow> (\<exists>d. fetch_block (src i) = BlockPresent d))))"
proof (intro conjI impI)
  assume r: "r = NetworkError \<or> r = Unparsable"
  show "fetch_block r = FetchFailed TransportError"
    by (rule fetch_block_transport[OF r])
  then show "update_tip_turn L r h s = Raise TransportError s"
    by (rule turn_failed)
next
  assume "src h = NetworkError \<or> src h = Unparsable"
  then have "update_tip_turn L (src h) h (call (Fetch h) s) = Raise TransportError (call (Fetch h) s)"
    by (intro turn_failed fetch_block_transport)
  then show "update_tip_loop L src h s = Some (Thrown TransportError (call (Fetch h) s))"
    by (rule loop_raise[OF _ refl])
next
  let ?h = "height L (florestaChain s) + 1"
  assume "src ?h = NetworkError \<or> src ?h = Unparsable"
  then have "update_tip_turn L (src ?h) ?h (call (Fetch ?h) s) = Raise TransportError (call (Fetch ?h) s)"
    by (intro turn_failed fetch_block_transport)
  then have "update_tip_loop L src ?h s = Some (Thrown TransportError (call (Fetch ?h) s))"
    by (rule loop_raise[OF _ refl])
  then show "sync_loop L src s = Some (Thrown TransportError (call (Fetch ?h) s))"
    by (simp add: sync_loop_def update_tip_def)
next
  assume "fetch_block r = BlockAbsent"
  then show "\<exists>block. r = Body block \<and> block \<noteq> JNull \<and> \<not> data_truthy block"
    by (rule fetch_block_absent)
next
  assume "update_tip_loop L src h s = Some (Returned s')"
  from loop_returned[OF this] show "\<exists>k\<ge>h. fetch_block (src k) = BlockAbsent \<and>
        (\<forall>i. h \<le> i \<and> i < k \<longrightarrow> (\<exists>d. fetch_block (src i) = BlockPresent d))"
    by blast
qed

theorem transport_failure_propagates_witness:
  "fetch_block NetworkError = FetchFailed TransportError
   \<and> update_tip_turn demo_lib NetworkError 1 (run demo_lib) = Raise TransportError (run demo_lib)
   \<and> update_tip_loop demo_lib (\<lambda>h. Unparsable) 1 (run demo_lib) =
       Some (Thrown TransportError (call (Fetch 1) (run demo_lib)))
   \<and> sync_loop demo_lib (\<lambda>h. Unparsable) (run demo_lib) =
       Some (Thrown TransportError (call (Fetch 1) (run demo_lib)))
   \<and> (\<exists>block. Body demo_end = Body block \<and> block \<noteq> JNull \<and> \<not> data_truthy block)
   \<and> (\<exists>k\<ge>1. fetch_block (demo_source 3 k) = BlockAbsent \<and>
        (\<forall>i. 1 \<le> i \<and> i < k \<longrightarrow> (\<exists>d. fetch_block (demo_source 3 i) = BlockPresent d)))"
proof -
  let ?end = "(run demo_lib)\<lparr>florestaChain := demo_chain_at 3,
      calls := calls (run demo_lib) @ run_calls demo_lib demo_data 0 3\<rparr>"
  have run: "update_tip_loop demo_lib (demo_source 3) 1 (run demo_lib) = Some (Returned ?end)"
    using loop_run[where cs = demo_chain_at and K = 3 and j = 0 and L = demo_lib
        and src = "demo_source 3" and d = demo_data and s = "run demo_lib"]
    by (simp add: demo_present demo_absent[of 3, simplified] demo_accepted[simplified] run_demo)
  have absent: "fetch_block (Body demo_end) = BlockAbsent"
    by (simp add: fetch_block_def demo_end_def)
  note a = transport_failure_propagates[where r = NetworkError and L = demo_lib and h = 1
      and s = "run demo_lib" and src = "\<lambda>h. Unparsable"]
  note b = transport_failure_propagates[where r = "Body demo_end" and L = demo_lib and h = 1
      and s = "run demo_lib" and src = "demo_source 3" and s' = ?end]
  from a have "fetch_block NetworkError = FetchFailed TransportError"
    "update_tip_turn demo_lib NetworkError 1 (run demo_lib) = Raise TransportError (run demo_lib)"
    "update_tip_loop demo_lib (\<lambda>h. Unparsable) 1 (run demo_lib) =
       Some (Thrown TransportError (call (Fetch 1) (run demo_lib)))"
    "sync_loop demo_lib (\<lambda>h. Unparsable) (run demo_lib) =
       Some (Thrown TransportError (call (Fetch 1) (run demo_lib)))"
    by (simp_all add: demo_height_run)
  moreover from b absent have
    "\<exists>block. Body demo_end = Body block \<and> block \<noteq> JNull \<and> \<not> data_truthy block"
    by blast
  moreover from b run have "\<exists>k\<ge>1. fetch_block (demo_source 3 k) = BlockAbsent \<and>
        (\<forall>i. 1 \<le> i \<and> i < k \<longrightarrow> (\<exists>d. fetch_block (demo_source 3 i) = BlockPresent d))"
    by blast
  ultimately show ?thesis
    by blast
qed

section \<open>Block or end of the chain\<close>

text \<open>
  Claim C4, as amended. For a parsed response, \<^verbatim>\<open>update_tip\<close> finds the end of the chain
  exactly when the response is not null and its \<^verbatim>\<open>data\<close> is missing or falsy, and finds
  a block exactly when \<^verbatim>\<open>data\<close> is truthy; it then hands \<^verbatim>\<open>data\<close> to \<^verbatim>\<open>accept_block\<close>. A
  response with a \<^verbatim>\<open>data.block\<close> field is always a block; a null response throws a
  TypeError.
\<close>

theorem block_absent_iff_data_falsy:
  "(fetch_block (Body block) = BlockAbsent \<longleftrightarrow> block \<noteq> JNull \<and> \<not> data_truthy block)
   \<and> ((\<exists>d. fetch_block (Body block) = BlockPresent d) \<longleftrightarrow> data_truthy block)
   \<and> (block = JNull \<longrightarrow> fetch_block (Body block) = FetchFailed TypeError)
   \<and> (has_data_block block \<longrightarrow> (\<exists>d. fetch_block (Body block) = BlockPresent d))
   \<and> (fetch_block (Body block) = BlockPresent d \<longrightarrow>
        get_prop block ''data'' = Inr (Some d) \<and>
        (\<exists>s'. (update_tip_turn L (Body block) h s = Continue s'
                \<or> update_tip_turn L (Body block) h s = Raise ValidationError s')
              \<and> (\<exists>ok. calls s' = calls s @
                    [LogAddingBlock (block_field d) h, AcceptBlock (stringify L d) ok])))
   \<and> (fetch_block (Body block) = BlockAbsent \<longrightarrow> update_tip_turn L (Body block) h s = Break s)"
proof (intro conjI impI)
  show "fetch_block (Body block) = BlockAbsent \<longleftrightarrow> block \<noteq> JNull \<and> \<not> data_truthy block"
    by (cases block) (auto simp: fetch_block_def data_truthy_def split: option.splits)
  show p: "(\<exists>d. fetch_block (Body block) = BlockPresent d) \<longleftrightarrow> data_truthy block"
    by (cases block) (auto simp: fetch_block_def data_truthy_def split: option.splits)
  show "fetch_block (Body block) = FetchFailed TypeError" if "block = JNull"
    using that by (simp add: fetch_block_def)
  show "\<exists>d. fetch_block (Body block) = BlockPresent d" if "has_data_block block"
    using has_data_block_truthy[OF that] p by simp
  show "update_tip_turn L (Body block) h s = Break s" if "fetch_block (Body block) = BlockAbsent"
    using that by (rule turn_absent)
next
  assume present: "fetch_block (Body block) = BlockPresent d"
  then show "get_prop block ''data'' = Inr (Some d)"
    by (auto simp: fetch_block_def split: sum.splits option.splits if_splits)
  show "\<exists>s'. (update_tip_turn L (Body block) h s = Continue s'
                \<or> update_tip_turn L (Body block) h s = Raise ValidationError s')
              \<and> (\<exists>ok. calls s' = calls s @
                    [LogAddingBlock (block_field d) h, AcceptBlock (stringify L d) ok])"
  proof (cases "accept_block L (stringify L d) (florestaChain s)")
    case None
    let ?s' = "s\<lparr>calls := calls s @
      [LogAddingBlock (block_field d) h, AcceptBlock (stringify L d) False]\<rparr>"
    from turn_rejected[OF present None]
    have "update_tip_turn L (Body block) h s = Raise ValidationError ?s'" .
    moreover have "calls ?s' = calls s @
        [LogAddingBlock (block_field d) h, AcceptBlock (stringify L d) False]"
      by simp
    ultimately show ?thesis
      by blast
  next
    case (Some c)
    let ?s' = "s\<lparr>florestaChain := c, calls := calls s @
      [LogAddingBlock (block_field d) h, AcceptBlock (stringify L d) True]\<rparr>"
    from turn_present[OF present Some]
    have "update_tip_turn L (Body block) h s = Continue ?s'" .
    moreover have "calls ?s' = calls s @
        [LogAddingBlock (block_field d) h, AcceptBlock (stringify L d) True]"
      by simp
    ultimately show ?thesis
      by blast
  qed
qed

theorem block_absent_iff_data_falsy_witness:
  "fetch_block (Body JNull) = FetchFailed TypeError
   \<and> has_data_block (JObj [(''data'', demo_data 1)])
   \<and> (\<exists>d. fetch_block (Body (JObj [(''data'', demo_data 1)])) = BlockPresent d)
   \<and> get_prop (JObj [(''data'', demo_data 1)]) ''data'' = Inr (Some (demo_data 1))
   \<and> (\<exists>s'. (update_tip_turn demo_lib (Body (JObj [(''data'', demo_data 1)])) 1 (run demo_lib)
                 = Continue s'
              \<or> update_tip_turn demo_lib (Body (JObj [(''data'', demo_data 1)])) 1 (run demo_lib)
                 = Raise ValidationError s')
            \<and> (\<exists>ok. calls s' = calls (run demo_lib) @
                  [LogAddingBlock (block_field (demo_data 1)) 1,
                   AcceptBlock (stringify demo_lib (demo_data 1)) ok]))
   \<and> fetch_block (Body demo_end) = BlockAbsent
   \<and> update_tip_turn demo_lib (Body demo_end) 1 (run demo_lib) = Break (run demo_lib)"
proof -
  note null = block_absent_iff_data_falsy[where block = JNull]
  note blk = block_absent_iff_data_falsy[where block = "JObj [(''data'', demo_data 1)]"
      and d = "demo_data 1" and L = demo_lib and h = 1 and s = "run demo_lib"]
  note fin = block_absent_iff_data_falsy[where block = demo_end
      and L = demo_lib and h = 1 and s = "run demo_lib"]
  have h: "has_data_block (JObj [(''data'', demo_data 1)])"
    by (simp add: has_data_block_def demo_data_def)
  have p: "fetch_block (Body (JObj [(''data'', demo_data 1)])) = BlockPresent (demo_data 1)"
    by (simp add: fetch_block_def demo_data_def)
  have e: "demo_end \<noteq> JNull \<and> \<not> data_truthy demo_end"
    by (simp add: demo_end_def data_truthy_def)
  from null have "fetch_block (Body JNull) = FetchFailed TypeError"
    by blast
  moreover from blk h have "\<exists>d. fetch_block (Body (JObj [(''data'', demo_data 1)])) = BlockPresent d"
    by blast
  moreover from blk p have "get_prop (JObj [(''data'', demo_data 1)]) ''data'' = Inr (Some (demo_data 1))"
    by blast
  moreover from blk p have
    "\<exists>s'. (update_tip_turn demo_lib (Body (JObj [(''data'', demo_data 1)])) 1 (run demo_lib)
                 = Continue s'
              \<or> update_tip_turn demo_lib (Body (JObj [(''data'', demo_data 1)])) 1 (run demo_lib)
                 = Raise ValidationError s')
            \<and> (\<exists>ok. calls s' = calls (run demo_lib) @
                  [LogAddingBlock (block_field (demo_data 1)) 1,
                   AcceptBlock (stringify demo_lib (demo_data 1)) ok])"
    by blast
  moreover from fin e have a: "fetch_block (Body demo_end) = BlockAbsent"
    by blast
  moreover from fin a have "update_tip_turn demo_lib (Body demo_end) 1 (run demo_lib) = Break (run demo_lib)"
    by blast
  ultimately show ?thesis
    using h by blast
qed

text \<open>
  The specification's signal does not decide it: a response whose \<^verbatim>\<open>data\<close> is an object
  with no \<^verbatim>\<open>block\<close> field is taken as a block, and its \<^verbatim>\<open>data\<close> goes to
  \<^verbatim>\<open>accept_block\<close>.
\<close>

theorem block_absent_iff_data_falsy_counterexample:
  "\<not> has_data_block (JObj [(''data'', JObj [(''proof'', JArr [])])])
   \<and> fetch_block (Body (JObj [(''data'', JObj [(''proof'', JArr [])])])) =
       BlockPresent (JObj [(''proof'', JArr [])])
   \<and> fetch_block (Body (JObj [(''data'', JObj [(''proof'', JArr [])])])) \<noteq> BlockAbsent
   \<and> update_tip_turn demo_lib (Body (JObj [(''data'', JObj [(''proof'', JArr [])])])) 1
         (run demo_lib) =
       Raise ValidationError
         ((run demo_lib)\<lparr>calls := [LogLoaded 0, LogAddingBlock None 1, AcceptBlock [] False]\<rparr>)"
  unfolding run_demo
  by (simp add: has_data_block_def fetch_block_def update_tip_turn_def call_def
      demo_lib_def demo_stringify_def block_field_def)

section \<open>Submitting an address\<close>

text \<open>
  Claim C5, as amended. For every string in the address field, \<^verbatim>\<open>add_address_to_wallet\<close>
  calls \<^verbatim>\<open>add_address\<close> with that string as it stands, untrimmed, and when the call
  returns the field is left empty.
\<close>

theorem add_address_forwards_field:
  "added (state_of (add_address_to_wallet L s)) = added s @ [wallet_value s]
   \<and> (add_address L (wallet_value s) (florestaChain s) = Some c \<longrightarrow>
        add_address_to_wallet L s =
          Returned (s\<lparr>florestaChain := c, wallet_value := [],
            calls := calls s @ [AddAddress (wallet_value s) True]\<rparr>))"
  using add_address_added[of L s]
  by (auto simp: add_address_to_wallet_def call_def Let_def)

theorem add_address_forwards_field_witness:
  "added (state_of (add_address_to_wallet demo_lib ((run demo_lib)\<lparr>wallet_value := ''abc123''\<rparr>))) =
        [''abc123'']
   \<and> add_address_to_wallet demo_lib ((run demo_lib)\<lparr>wallet_value := ''abc123''\<rparr>) =
        Returned ((run demo_lib)\<lparr>florestaChain := (demo_chain_at 0)\<lparr>d_watched := [''abc123'']\<rparr>,
          wallet_value := [], calls := [LogLoaded 0, AddAddress ''abc123'' True]\<rparr>)"
proof -
  let ?s = "(run demo_lib)\<lparr>wallet_value := ''abc123''\<rparr>"
  let ?c = "(demo_chain_at 0)\<lparr>d_watched := [''abc123'']\<rparr>"
  have s: "wallet_value ?s = ''abc123''" "florestaChain ?s = demo_chain_at 0"
    "calls ?s = [LogLoaded 0]" "added ?s = []"
    by (simp_all add: run_demo added_def List.map_filter_simps)
  have a: "add_address demo_lib (wallet_value ?s) (florestaChain ?s) = Some ?c"
    unfolding s by (simp add: demo_lib_def demo_chain_at_def)
  note w = add_address_forwards_field[of demo_lib ?s ?c]
  show ?thesis
  proof (intro conjI)
    from w show "added (state_of (add_address_to_wallet demo_lib ?s)) = [''abc123'']"
      unfolding s by simp
    from w a show "add_address_to_wallet demo_lib ?s =
        Returned ((run demo_lib)\<lparr>florestaChain := ?c, wallet_value := [],
          calls := [LogLoaded 0, AddAddress ''abc123'' True]\<rparr>)"
      unfolding s by simp
  qed
qed

text \<open>The string goes to the chain as it stands in the field, white space included.\<close>

theorem add_address_forwards_field_counterexample:
  "spec_trim '' abc '' = ''abc''
   \<and> add_address_to_wallet demo_lib ((run demo_lib)\<lparr>wallet_value := '' abc ''\<rparr>) =
        Returned ((run demo_lib)\<lparr>florestaChain := (demo_chain_at 0)\<lparr>d_watched := ['' abc '']\<rparr>,
          wallet_value := [], calls := [LogLoaded 0, AddAddress '' abc '' True]\<rparr>)
   \<and> added (state_of (add_address_to_wallet demo_lib ((run demo_lib)\<lparr>wallet_value := '' abc ''\<rparr>)))
        = ['' abc '']
   \<and> added (state_of (add_address_to_wallet demo_lib ((run demo_lib)\<lparr>wallet_value := '' abc ''\<rparr>)))
        \<noteq> [spec_trim '' abc '']"
proof -
  have t: "spec_trim '' abc '' = ''abc''"
    by (simp add: spec_trim_def is_space_def)
  have "add_address_to_wallet demo_lib ((run demo_lib)\<lparr>wallet_value := '' abc ''\<rparr>) =
        Returned ((run demo_lib)\<lparr>florestaChain := (demo_chain_at 0)\<lparr>d_watched := ['' abc '']\<rparr>,
          wallet_value := [], calls := [LogLoaded 0, AddAddress '' abc '' True]\<rparr>)"
    unfolding run_demo
    by (simp add: add_address_to_wallet_def call_def demo_lib_def demo_chain_at_def Let_def)
  with t show ?thesis
    by (simp add: state_of_def added_def List.map_filter_simps)
qed

section \<open>An address that the chain refuses\<close>

text \<open>
  Claim C10. When \<^verbatim>\<open>add_address\<close> throws for the string in the address field,
  \<^verbatim>\<open>add_address_to_wallet\<close> throws before it clears the field: the field keeps its
  contents, and nothing else of the page changes but the record of the call.
\<close>

theorem failed_add_keeps_field:
  "add_address L (wallet_value s) (florestaChain s) = None \<longrightarrow>
     add_address_to_wallet L s =
       Thrown InputError (s\<lparr>calls := calls s @ [AddAddress (wallet_value s) False]\<rparr>)
     \<and> wallet_value (state_of (add_address_to_wallet L s)) = wallet_value s
     \<and> rendered (state_of (add_address_to_wallet L s)) = rendered s
     \<and> start_disabled (state_of (add_address_to_wallet L s)) = start_disabled s
     \<and> last_tip (state_of (add_address_to_wallet L s)) = last_tip s"
  by (simp add: add_address_to_wallet_def call_def Let_def state_of_def)

theorem failed_add_keeps_field_witness:
  "add_address demo_lib ''not an address!'' (demo_chain_at 0) = None
   \<and> add_address_to_wallet demo_lib ((run demo_lib)\<lparr>wallet_value := ''not an address!''\<rparr>) =
       Thrown InputError ((run demo_lib)\<lparr>wallet_value := ''not an address!'',
         calls := [LogLoaded 0, AddAddress ''not an address!'' False]\<rparr>)
   \<and> wallet_value (state_of (add_address_to_wallet demo_lib
         ((run demo_lib)\<lparr>wallet_value := ''not an address!''\<rparr>))) = ''not an address!''"
proof -
  let ?s = "(run demo_lib)\<lparr>wallet_value := ''not an address!''\<rparr>"
  have s: "wallet_value ?s = ''not an address!''" "florestaChain ?s = demo_chain_at 0"
    "calls ?s = [LogLoaded 0]"
    by (simp_all add: run_demo)
  have a: "add_address demo_lib ''not an address!'' (demo_chain_at 0) = None"
    by (simp add: demo_lib_def)
  note w = failed_add_keeps_field[of demo_lib ?s]
  show ?thesis
  proof (intro conjI)
    show "add_address demo_lib ''not an address!'' (demo_chain_at 0) = None"
      by (rule a)
    from w a show "add_address_to_wallet demo_lib ?s =
       Thrown InputError ((run demo_lib)\<lparr>wallet_value := ''not an address!'',
         calls := [LogLoaded 0, AddAddress ''not an address!'' False]\<rparr>)"
      unfolding s by simp
    from w a show "wallet_value (state_of (add_address_to_wallet demo_lib ?s)) = ''not an address!''"
      unfolding s by blast
  qed
qed

section \<open>Rendering only a new tip\<close>

text \<open>
  Claim C8, as amended. \<^verbatim>\<open>update_ui\<close> reads the tip; when it is the last rendered tip
  the call changes nothing; otherwise it records the tip and writes the attributes of
  the chain and its transactions to the page. So a second call with no change of the tip
  in between writes nothing, and two calls in a row write at most once: once when the
  tip was not yet rendered before the first call, and not at all when it was.
\<close>

theorem update_ui_once:
  "(last_tip s = Some (tip L (florestaChain s)) \<longrightarrow> update_ui L s = s)
   \<and> (last_tip s \<noteq> Some (tip L (florestaChain s)) \<longrightarrow>
        update_ui L s = s\<lparr>last_tip := Some (tip L (florestaChain s)),
          rendered := rendered s @
            [(snapshot_of L (florestaChain s), our_txs L (florestaChain s))]\<rparr>)
   \<and> update_ui L (update_ui L s) = update_ui L s
   \<and> length (rendered (update_ui L (update_ui L s))) =
        length (rendered s) + (if last_tip s = Some (tip L (florestaChain s)) then 0 else 1)
   \<and> (tip L c = tip L (florestaChain s) \<longrightarrow>
        update_ui L ((update_ui L s)\<lparr>florestaChain := c\<rparr>) = (update_ui L s)\<lparr>florestaChain := c\<rparr>)"
proof (intro conjI impI)
  show "update_ui L s = s" if "last_tip s = Some (tip L (florestaChain s))"
    using that by (rule update_ui_same)
  show "update_ui L s = s\<lparr>last_tip := Some (tip L (florestaChain s)),
          rendered := rendered s @
            [(snapshot_of L (florestaChain s), our_txs L (florestaChain s))]\<rparr>"
    if "last_tip s \<noteq> Some (tip L (florestaChain s))"
    using that by (rule update_ui_new)
  show "update_ui L (update_ui L s) = update_ui L s"
    by (rule update_ui_idem)
  show "length (rendered (update_ui L (update_ui L s))) =
        length (rendered s) + (if last_tip s = Some (tip L (florestaChain s)) then 0 else 1)"
    unfolding update_ui_idem by (auto simp: update_ui_def Let_def)
  show "update_ui L ((update_ui L s)\<lparr>florestaChain := c\<rparr>) = (update_ui L s)\<lparr>florestaChain := c\<rparr>"
    if "tip L c = tip L (florestaChain s)"
    by (rule update_ui_same) (simp add: update_ui_last_tip that)
qed

theorem update_ui_once_witness:
  "update_ui demo_lib (run demo_lib) = run demo_lib
   \<and> update_ui demo_lib ((run demo_lib)\<lparr>florestaChain := demo_chain_at 1\<rparr>) =
       (run demo_lib)\<lparr>florestaChain := demo_chain_at 1, last_tip := Some ''b'',
         rendered := rendered (run demo_lib) @
           [(snapshot_of demo_lib (demo_chain_at 1), our_txs demo_lib (demo_chain_at 1))]\<rparr>
   \<and> length (rendered (update_ui demo_lib (update_ui demo_lib
         ((run demo_lib)\<lparr>florestaChain := demo_chain_at 1\<rparr>)))) = 2
   \<and> update_ui demo_lib ((update_ui demo_lib (run demo_lib))
         \<lparr>florestaChain := toggle_ibd demo_lib (demo_chain_at 0)\<rparr>) =
       (update_ui demo_lib (run demo_lib))\<lparr>florestaChain := toggle_ibd demo_lib (demo_chain_at 0)\<rparr>"
proof -
  let ?s = "(run demo_lib)\<lparr>florestaChain := demo_chain_at 1\<rparr>"
  have same: "last_tip (run demo_lib) = Some (tip demo_lib (florestaChain (run demo_lib)))"
    unfolding run_demo by (simp add: demo_lib_def demo_chain_at_def)
  have new: "last_tip ?s \<noteq> Some (tip demo_lib (florestaChain ?s))"
    "tip demo_lib (florestaChain ?s) = ''b''" "length (rendered ?s) = 1"
    unfolding run_demo by (simp_all add: demo_lib_def demo_chain_at_def)
  have tog: "tip demo_lib (toggle_ibd demo_lib (demo_chain_at 0)) =
      tip demo_lib (florestaChain (run demo_lib))"
    unfolding run_demo by (simp add: demo_lib_def demo_chain_at_def)
  note a = update_ui_once[of "run demo_lib" demo_lib "toggle_ibd demo_lib (demo_chain_at 0)"]
  note b = update_ui_once[of ?s demo_lib]
  show ?thesis
  proof (intro conjI)
    from a same show "update_ui demo_lib (run demo_lib) = run demo_lib"
      by blast
    from b new(1) have "update_ui demo_lib ?s = ?s\<lparr>last_tip := Some (tip demo_lib (florestaChain ?s)),
          rendered := rendered ?s @
            [(snapshot_of demo_lib (florestaChain ?s), our_txs demo_lib (florestaChain ?s))]\<rparr>"
      by blast
    then show "update_ui demo_lib ?s =
       (run demo_lib)\<lparr>florestaChain := demo_chain_at 1, last_tip := Some ''b'',
         rendered := rendered (run demo_lib) @
           [(snapshot_of demo_lib (demo_chain_at 1), our_txs demo_lib (demo_chain_at 1))]\<rparr>"
      unfolding new(2) by simp
    from b have "length (rendered (update_ui demo_lib (update_ui demo_lib ?s))) =
        length (rendered ?s) +
          (if last_tip ?s = Some (tip demo_lib (florestaChain ?s)) then 0 else 1)"
      by blast
    then show "length (rendered (update_ui demo_lib (update_ui demo_lib ?s))) = 2"
      unfolding new(3) using new(1) by (simp only: if_False)
    from a tog show "update_ui demo_lib ((update_ui demo_lib (run demo_lib))
         \<lparr>florestaChain := toggle_ibd demo_lib (demo_chain_at 0)\<rparr>) =
       (update_ui demo_lib (run demo_lib))\<lparr>florestaChain := toggle_ibd demo_lib (demo_chain_at 0)\<rparr>"
      by blast
  qed
qed

text \<open>
  Two calls in a row on a page that already shows the tip write nothing: the first two
  ticks of the timer after the page has loaded.
\<close>

theorem update_ui_once_counterexample:
  "rendered (update_ui demo_lib (update_ui demo_lib (run demo_lib))) = rendered (run demo_lib)
   \<and> length (rendered (update_ui demo_lib (update_ui demo_lib (run demo_lib)))) \<noteq>
       length (rendered (run demo_lib)) + 1"
proof -
  have "update_ui demo_lib (run demo_lib) = run demo_lib"
    unfolding run_demo by (simp add: update_ui_def demo_lib_def demo_chain_at_def)
  then show ?thesis
    by simp
qed

section \<open>How often the chain is told that the sync is done\<close>

text \<open>
  Claim C3, as amended. Over every sequence of clicks, timer ticks and arriving responses
  in which no click on the start button comes while a \<^verbatim>\<open>sync_loop\<close> is still waiting for
  a response, \<^verbatim>\<open>toggle_ibd\<close> is called at most once since the page was loaded. The timer
  never calls it: neither a tick nor a response to an \<^verbatim>\<open>update_tip\<close> that the timer
  started adds a call.
\<close>

theorem toggle_at_most_once:
  "(starts_spaced L as (run L) \<longrightarrow> toggles (exec L as (run L)) \<le> 1)
   \<and> toggles (timer_tick L s) = toggles s
   \<and> (i < length (pending s) \<and> t_origin (pending s ! i) = ByTimer \<longrightarrow>
        toggles (deliver L i r s) = toggles s)"
proof (intro conjI impI)
  assume "starts_spaced L as (run L)"
  with run_inv have "toggle_inv (exec L as (run L))"
    by (rule exec_inv)
  then show "toggles (exec L as (run L)) \<le> 1"
    by (auto simp: toggle_inv_def split: if_splits)
next
  show "toggles (timer_tick L s) = toggles s"
    by (rule timer_tick_toggles)
next
  assume "i < length (pending s) \<and> t_origin (pending s ! i) = ByTimer"
  then show "toggles (deliver L i r s) = toggles s"
    by (intro deliver_timer_toggles) simp_all
qed


theorem toggle_at_most_once_witness:
  "starts_spaced demo_lib
     [ClickStart, TimerTick, Deliver 0 (demo_source 1 1), Deliver 0 (demo_source 1 2),
      TimerTick, Deliver 0 (demo_source 2 2), ClickStart, Deliver 0 (demo_source 2 3)]
     (run demo_lib)
   \<and> toggles (exec demo_lib
     [ClickStart, TimerTick, Deliver 0 (demo_source 1 1), Deliver 0 (demo_source 1 2),
      TimerTick, Deliver 0 (demo_source 2 2), ClickStart, Deliver 0 (demo_source 2 3)]
     (run demo_lib)) \<le> 1
   \<and> toggles (timer_tick demo_lib (run demo_lib)) = toggles (run demo_lib)
   \<and> 0 < length (pending (exec demo_lib [ClickStart, Deliver 0 (Body demo_end), TimerTick]
         (run demo_lib)))
   \<and> t_origin (pending (exec demo_lib [ClickStart, Deliver 0 (Body demo_end), TimerTick]
         (run demo_lib)) ! 0) = ByTimer
   \<and> toggles (deliver demo_lib 0 (Body demo_end)
         (exec demo_lib [ClickStart, Deliver 0 (Body demo_end), TimerTick] (run demo_lib))) =
       toggles (exec demo_lib [ClickStart, Deliver 0 (Body demo_end), TimerTick] (run demo_lib))"
proof -
  let ?as = "[ClickStart, TimerTick, Deliver 0 (demo_source 1 1), Deliver 0 (demo_source 1 2),
      TimerTick, Deliver 0 (demo_source 2 2), ClickStart, Deliver 0 (demo_source 2 3)]"
  let ?s = "exec demo_lib [ClickStart, Deliver 0 (Body demo_end), TimerTick] (run demo_lib)"
  have spaced: "starts_spaced demo_lib ?as (run demo_lib)"
    by code_simp
  have waiting: "0 < length (pending ?s)" "t_origin (pending ?s ! 0) = ByTimer"
    by code_simp+
  note w = toggle_at_most_once[where L = demo_lib and as = ?as and i = 0 and s = ?s
      and r = "Body demo_end"]
  from w spaced have "toggles (exec demo_lib ?as (run demo_lib)) \<le> 1"
    by blast
  moreover from toggle_at_most_once[where L = demo_lib and as = ?as and s = "run demo_lib"]
  have "toggles (timer_tick demo_lib (run demo_lib)) = toggles (run demo_lib)"
    by blast
  moreover from w waiting have "toggles (deliver demo_lib 0 (Body demo_end) ?s) = toggles ?s"
    by blast
  ultimately show ?thesis
    using spaced waiting by blast
qed

text \<open>
  Two clicks on the start button before the first response arrives: both
  \<^verbatim>\<open>sync_loop\<close>s run to their end, \<^verbatim>\<open>toggle_ibd\<close> is called twice, and the chain is
  back in its initial sync.
\<close>

theorem toggle_at_most_once_counterexample:
  "toggles (exec demo_lib
      [ClickStart, ClickStart, Deliver 0 (Body demo_end), Deliver 0 (Body demo_end)]
      (run demo_lib)) = 2
   \<and> calls (exec demo_lib
      [ClickStart, ClickStart, Deliver 0 (Body demo_end), Deliver 0 (Body demo_end)]
      (run demo_lib)) = [LogLoaded 0, Fetch 1, Fetch 1, ToggleIbd, ToggleIbd]
   \<and> ibd demo_lib (florestaChain (exec demo_lib
      [ClickStart, ClickStart, Deliver 0 (Body demo_end), Deliver 0 (Body demo_end)]
      (run demo_lib)))"
  by code_simp

section \<open>After a sync that failed\<close>




end
